theory Spec2Isabelle
  imports Complex_Main
begin

section \<open>The conditional learner for a finite class of classifiers\<close>

text \<open>
  A shallow embedding of \<^verbatim>\<open>src/models/conditional_classification_finite_class.py\<close>:
  the constructor, \<^verbatim>\<open>forward\<close> and \<^verbatim>\<open>evaluate\<close> of
  \<^verbatim>\<open>ConditionalLearnerForFiniteClass\<close>.

  A one-dimensional tensor is a list, a two-dimensional tensor a list of rows. Every
  exception the Python can raise is a value \<open>Inl e\<close> of the result.
\<close>

subsection \<open>Errors and floating-point results\<close>

datatype error = ZeroDivisionError | RuntimeError | IndexError | ValueError

text \<open>
  The result of dividing one count by another in floating point: \<open>0 / 0\<close> is NaN,
  \<open>n / 0\<close> with \<open>n > 0\<close> is \<open>+inf\<close>, anything else is a finite number.
  The finite quotient itself is a parameter (\<open>true_divide\<close> below), so that nothing
  is assumed about its rounding.
\<close>

datatype fval = NaN | PInf | Val rat

definition float_div :: "(nat \<Rightarrow> nat \<Rightarrow> rat) \<Rightarrow> nat \<Rightarrow> nat \<Rightarrow> fval" where
  "float_div fd n d = (if d = 0 then (if n = 0 then NaN else PInf) else Val (fd n d))"

text \<open>The comparison \<open>a < b\<close> of two floating-point values; NaN compares false.\<close>

fun fless :: "fval \<Rightarrow> fval \<Rightarrow> bool" where
  "fless NaN _ = False"
| "fless _ NaN = False"
| "fless PInf _ = False"
| "fless (Val a) PInf = True"
| "fless (Val a) (Val b) = (a < b)"

subsection \<open>The collaborators\<close>

text \<open>
  \<^verbatim>\<open>Subset(dataset, indices)\<close>, as \<^verbatim>\<open>random_split\<close> returns it: the dataset
  and the indices of the samples that belong to the split. Its length is the number of
  indices.
\<close>

type_synonym 's subset = "'s list \<times> nat list"

definition subset_len :: "'s subset \<Rightarrow> nat" where
  "subset_len sub = length (snd sub)"

text \<open>
  The code of \<^verbatim>\<open>utils.helpers\<close> and of the perceptron trainer is not part of the
  file; it enters the model as parameters, collected in one record.

  \<^item> \<open>to_dense\<close>: the dense matrix of a sparse classifier cluster \<open>'c\<close>;
  \<^item> \<open>TransformedDataset\<close>: the view of the raw data \<open>'d\<close>, with or without a
    cluster, as a list of (label, feature) samples;
  \<^item> \<open>Classify\<close>: Modelled from the spec: the classification helper, absent from the
    sources, takes a matrix of weight vectors and the features of the samples, and
    returns a boolean prediction matrix with one row per weight vector and one column
    per sample. The features are passed sample by sample; the transposition
    \<^verbatim>\<open>features.T\<close> is a matter of its argument's layout;
  \<^item> \<open>randperm\<close>: the permutation \<^verbatim>\<open>random_split\<close> draws at the \<open>i\<close>-th split for
    \<open>n\<close> samples;
  \<^item> \<open>SelectorPerceptron\<close>: Modelled from the spec: the trainer, absent from the
    sources, is constructed from a header, the dimension, the cluster id, the cluster
    size, the iteration count, the step size and the batch size, and is called with
    the training split, the validation split and the initial weight; it returns the
    selector matrix of the cluster, or raises. It is a function of these arguments:
    by the spec the initial weight is read-only for the trainer (shared, copied per
    run, never mutated during or after training), so no effect of the trainer on the
    tensor it is passed is modelled;
  \<^item> \<open>true_divide\<close>: the floating-point quotient of two counts, the second not zero.
\<close>

record ('d, 'c, 'x, 'a, 'f) collaborators =
  to_dense :: "'c \<Rightarrow> 'a list list"
  TransformedDataset :: "'d \<Rightarrow> 'c option \<Rightarrow> (bool \<times> 'x) list"
  Classify :: "'a list list \<Rightarrow> 'x list \<Rightarrow> bool list list"
  randperm :: "nat \<Rightarrow> nat \<Rightarrow> nat list"
  SelectorPerceptron :: "string \<Rightarrow> int \<Rightarrow> nat \<Rightarrow> nat \<Rightarrow> int \<Rightarrow> 'f \<Rightarrow> int \<Rightarrow>
    (bool \<times> 'x) subset \<Rightarrow> (bool \<times> 'x) subset \<Rightarrow> 'a list \<Rightarrow> error + 'a list list"
  true_divide :: "nat \<Rightarrow> nat \<Rightarrow> rat"

text \<open>
  Modelled from the spec: the shape contract of the absent \<open>Classify\<close>, a prediction
  matrix of \<open>[rows \<times> samples]\<close> for a weight matrix of \<open>rows\<close> vectors.
\<close>

definition classify_ok :: "('d, 'c, 'x, 'a, 'f) collaborators \<Rightarrow> bool" where
  "classify_ok co \<longleftrightarrow>
     (\<forall>W X. length (Classify co W X) = length W
          \<and> list_all (\<lambda>row. length row = length X) (Classify co W X))"

text \<open>
  Modelled from the spec: the contract of the trainer, absent from the sources. For a
  cluster with at least one classifier and an initial weight of dimension \<open>D\<close> it
  returns a matrix with exactly \<open>cluster_size\<close> rows and \<open>D\<close> columns.
\<close>

definition trainer_ok :: "('d, 'c, 'x, 'a, 'f) collaborators \<Rightarrow> nat \<Rightarrow> bool" where
  "trainer_ok co D \<longleftrightarrow>
     (\<forall>h cid n it lr b tr va w. 0 < n \<and> length w = D \<longrightarrow>
        (\<exists>sels. SelectorPerceptron co h (int D) cid n it lr b tr va w = Inr sels
           \<and> length sels = n \<and> list_all (\<lambda>row. length row = D) sels))"

text \<open>
  The invariant of the data model on the input: every cluster has at least one
  classifier, and every classifier has dimension \<open>D\<close>.
\<close>

definition clusters_ok :: "('d, 'c, 'x, 'a, 'f) collaborators \<Rightarrow> nat \<Rightarrow> 'c list \<Rightarrow> bool" where
  "clusters_ok co D clusters \<longleftrightarrow>
     list_all (\<lambda>c. to_dense co c \<noteq> [] \<and> list_all (\<lambda>row. length row = D) (to_dense co c))
       clusters"

subsection \<open>\<^verbatim>\<open>evaluate\<close>\<close>

text \<open>
  \<^verbatim>\<open>Classify(...) != labels\<close> (lines 125 to 130): every row of predictions is compared
  with the labels, sample by sample. Operands of different shapes raise; the
  broadcasting of a dimension of size one, which the shape contract of \<open>Classify\<close>
  never needs, is not modelled.
\<close>

definition not_equal :: "bool list list \<Rightarrow> bool list \<Rightarrow> error + bool list list" where
  "not_equal preds labels =
     (if list_all (\<lambda>row. length row = length labels) preds
      then Inr (map (\<lambda>row. map2 (\<lambda>p l. p \<noteq> l) row labels) preds)
      else Inl RuntimeError)"

text \<open>
  \<^verbatim>\<open>errors * selections\<close> (line 136): the elementwise product of two boolean matrices
  of one shape. As for \<open>not_equal\<close>, operands of different shapes raise: the
  broadcasting of a matrix of one row or one column is not modelled; \<^verbatim>\<open>evaluate\<close> is
  called with as many selectors as classifiers.
\<close>

definition mul :: "bool list list \<Rightarrow> bool list list \<Rightarrow> error + bool list list" where
  "mul errors selections =
     (if list_all2 (\<lambda>e s. length e = length s) errors selections
      then Inr (map2 (\<lambda>e s. map2 (\<lambda>a b. a \<and> b) e s) errors selections)
      else Inl RuntimeError)"

text \<open>\<^verbatim>\<open>.sum(dim=-1)\<close>: the number of true entries of every row.\<close>

definition count_true :: "bool list \<Rightarrow> nat" where
  "count_true bs = length (filter (\<lambda>b. b) bs)"

definition sum_rows :: "bool list list \<Rightarrow> nat list" where
  "sum_rows m = map count_true m"

text \<open>The elementwise division of two vectors of counts (line 136).\<close>

definition divide :: "(nat \<Rightarrow> nat \<Rightarrow> rat) \<Rightarrow> nat list \<Rightarrow> nat list \<Rightarrow> error + fval list" where
  "divide fd ns ds =
     (if length ns = length ds then Inr (map2 (float_div fd) ns ds) else Inl RuntimeError)"

text \<open>\<^verbatim>\<open>conditional_error_rate[torch.isnan(conditional_error_rate)] = 1\<close> (line 138).\<close>

definition nan_to_one :: "fval list \<Rightarrow> fval list" where
  "nan_to_one rs = map (\<lambda>r. if r = NaN then Val 1 else r) rs"

text \<open>Lines 136 to 138: the conditional error rate of every row.\<close>

definition conditional_error_rate ::
  "(nat \<Rightarrow> nat \<Rightarrow> rat) \<Rightarrow> bool list list \<Rightarrow> bool list list \<Rightarrow> error + fval list" where
  "conditional_error_rate fd errors selections =
     (case mul errors selections of
        Inl e \<Rightarrow> Inl e
      | Inr both \<Rightarrow>
          (case divide fd (sum_rows both) (sum_rows selections) of
             Inl e \<Rightarrow> Inl e
           | Inr ratio \<Rightarrow> Inr (nan_to_one ratio)))"

text \<open>
  \<^verbatim>\<open>torch.min(rate, dim=0)\<close> on a vector: the minimum and the index of its first
  occurrence; a NaN, once met, is the result; no minimum of an empty vector. The scan
  keeps the minimum so far and its index, and replaces them only by a strictly smaller
  value.
\<close>

fun min_scan :: "fval \<times> nat \<Rightarrow> nat \<Rightarrow> fval list \<Rightarrow> fval \<times> nat" where
  "min_scan (m, k) i [] = (m, k)"
| "min_scan (m, k) i (x # xs) =
     min_scan (if m = NaN then (m, k)
               else if x = NaN \<or> fless x m then (x, i)
               else (m, k)) (Suc i) xs"

definition torch_min :: "fval list \<Rightarrow> error + fval \<times> nat" where
  "torch_min rs = (case rs of [] \<Rightarrow> Inl IndexError | x # xs \<Rightarrow> Inr (min_scan (x, 0) 1 xs))"

text \<open>\<^verbatim>\<open>t[i]\<close>: the row \<open>i\<close> of a matrix, an error out of range.\<close>

definition get_row :: "'a list list \<Rightarrow> nat \<Rightarrow> error + 'a list" where
  "get_row t i = (if i < length t then Inr (t ! i) else Inl IndexError)"

text \<open>Lines 123 to 138 of \<^verbatim>\<open>evaluate\<close>: the vector of conditional error rates.\<close>

definition error_rates ::
  "('d, 'c, 'x, 'a, 'f) collaborators \<Rightarrow> (bool \<times> 'x) list \<Rightarrow> 'a list list \<Rightarrow> 'a list list
    \<Rightarrow> error + fval list" where
  "error_rates co eval_dataset classifiers selectors =
     (let labels = map fst eval_dataset;
          features = map snd eval_dataset
      in case not_equal (Classify co classifiers features) labels of
           Inl e \<Rightarrow> Inl e
         | Inr errors \<Rightarrow>
             conditional_error_rate (true_divide co) errors (Classify co selectors features))"

text \<open>\<^verbatim>\<open>evaluate\<close>, lines 117 to 142.\<close>

definition evaluate ::
  "('d, 'c, 'x, 'a, 'f) collaborators \<Rightarrow> (bool \<times> 'x) list \<Rightarrow> 'a list list \<Rightarrow> 'a list list
    \<Rightarrow> error + 'a list \<times> 'a list" where
  "evaluate co eval_dataset classifiers selectors =
     (case error_rates co eval_dataset classifiers selectors of
        Inl e \<Rightarrow> Inl e
      | Inr rate \<Rightarrow>
          (case torch_min rate of
             Inl e \<Rightarrow> Inl e
           | Inr (min_error, min_index) \<Rightarrow>
               (case get_row classifiers min_index of
                  Inl e \<Rightarrow> Inl e
                | Inr c \<Rightarrow>
                    (case get_row selectors min_index of
                       Inl e \<Rightarrow> Inl e
                     | Inr s \<Rightarrow> Inr (c, s)))))"

subsection \<open>The constructor\<close>

text \<open>
  The floating-point operations of the constructor, as parameters: nothing is assumed
  about their rounding. \<open>py_div a b\<close> is the float that Python's \<^verbatim>\<open>a / b\<close> gives for
  two integers, \<open>b\<close> not zero; \<open>tensor\<close> is \<^verbatim>\<open>torch.tensor\<close> on a Python float;
  \<open>torch_sqrt\<close> is \<^verbatim>\<open>torch.sqrt\<close>; \<open>scalar_mul c t\<close> is \<^verbatim>\<open>c * t\<close> for a Python
  float \<open>c\<close> and a tensor \<open>t\<close>. \<open>'r\<close> is the type of Python floats, \<open>'f\<close> the type
  of floating-point tensors of one element.
\<close>

record ('r, 'f) float_ops =
  py_div :: "int \<Rightarrow> int \<Rightarrow> 'r"
  tensor :: "'r \<Rightarrow> 'f"
  torch_sqrt :: "'f \<Rightarrow> 'f"
  scalar_mul :: "'r \<Rightarrow> 'f \<Rightarrow> 'f"

text \<open>The fields of the learner.\<close>

record ('a, 'f) learner =
  header :: string
  dim_sample :: int
  num_iter :: int
  batch_size :: int
  sample_size_psgd :: int
  lr_beta :: 'f
  init_weight :: "'a list"

text \<open>\<^verbatim>\<open>torch.zeros(n)\<close> and \<^verbatim>\<open>torch.zeros([rows, cols])\<close>: a negative dimension raises.\<close>

definition zeros :: "int \<Rightarrow> error + ('a::zero) list" where
  "zeros n = (if n < 0 then Inl RuntimeError else Inr (replicate (nat n) 0))"

definition zeros2 :: "nat \<Rightarrow> int \<Rightarrow> error + ('a::zero) list list" where
  "zeros2 rows cols =
     (if cols < 0 then Inl RuntimeError else Inr (replicate rows (replicate (nat cols) 0)))"

text \<open>
  \<^verbatim>\<open>__init__\<close>, lines 29 to 42. The division \<^verbatim>\<open>1 / (num_iter * dim_sample)\<close> of
  Python raises for a divisor 0, and \<^verbatim>\<open>init_weight[0] = 1\<close> raises on an empty
  tensor.
\<close>

definition init ::
  "('r, 'f) float_ops \<Rightarrow> string \<Rightarrow> int \<Rightarrow> int \<Rightarrow> int \<Rightarrow> 'r \<Rightarrow> int
    \<Rightarrow> error + ('a::{zero,one}, 'f) learner" where
  "init fl prev_header dim_sample' num_iter' sample_size_psgd' lr_coeff batch_size' =
     (if num_iter' * dim_sample' = 0 then Inl ZeroDivisionError
      else case zeros dim_sample' of
             Inl e \<Rightarrow> Inl e
           | Inr w \<Rightarrow>
               if 0 < length w
               then Inr \<lparr> header = prev_header @ '' '' @ ''conditional learner'' @ '' '' @ ''-'',
                          dim_sample = dim_sample',
                          num_iter = num_iter',
                          batch_size = batch_size',
                          sample_size_psgd = sample_size_psgd',
                          lr_beta = scalar_mul fl lr_coeff
                                      (torch_sqrt fl
                                        (tensor fl (py_div fl 1 (num_iter' * dim_sample')))),
                          init_weight = w[0 := 1] \<rparr>
               else Inl IndexError)"

subsection \<open>\<^verbatim>\<open>random_split\<close>\<close>

text \<open>
  A Python slice \<^verbatim>\<open>xs[a:b]\<close>: a negative bound counts from the end, and both bounds
  are clipped to the list.
\<close>

definition slice_bound :: "nat \<Rightarrow> int \<Rightarrow> nat" where
  "slice_bound n i = (if i < 0 then nat (max 0 (i + int n)) else min (nat i) n)"

definition slice :: "'a list \<Rightarrow> int \<Rightarrow> int \<Rightarrow> 'a list" where
  "slice xs a b =
     (let lo = slice_bound (length xs) a; hi = slice_bound (length xs) b
      in take (hi - lo) (drop lo xs))"

text \<open>\<^verbatim>\<open>itertools.accumulate\<close>: the running sums.\<close>

fun accumulate_from :: "int \<Rightarrow> int list \<Rightarrow> int list" where
  "accumulate_from s [] = []"
| "accumulate_from s (x # xs) = (s + x) # accumulate_from (s + x) xs"

definition accumulate :: "int list \<Rightarrow> int list" where
  "accumulate xs = accumulate_from 0 xs"

text \<open>
  \<^verbatim>\<open>torch.utils.data.random_split\<close>, a function of the library. Lengths that sum to
  1 are read as fractions of the dataset: a fraction below 0 or above 1 raises, the
  length of a split is the floor of its share, and what remains of the dataset is
  handed out one sample at a time, round-robin from the first split
  (\<open>add_remainder\<close>). For integers the floor of the share is the product itself.
\<close>

fun add_remainder :: "nat \<Rightarrow> nat \<Rightarrow> int list \<Rightarrow> int list" where
  "add_remainder 0 i subset_lengths = subset_lengths"
| "add_remainder (Suc r) i subset_lengths =
     add_remainder r (Suc i)
       (subset_lengths[i mod length subset_lengths :=
          subset_lengths ! (i mod length subset_lengths) + 1])"

definition fraction_lengths :: "nat \<Rightarrow> int list \<Rightarrow> error + int list" where
  "fraction_lengths n lengths =
     (if sum_list lengths = 1
      then (if list_ex (\<lambda>frac. frac < 0 \<or> 1 < frac) lengths then Inl ValueError
            else let subset_lengths = map (\<lambda>frac. int n * frac) lengths;
                     remainder = int n - sum_list subset_lengths
                 in Inr (add_remainder (nat remainder) 0 subset_lengths))
      else Inr lengths)"

text \<open>
  The lengths must then sum to the length of the dataset; a permutation of the
  indices is drawn and cut at the running sums of the lengths. \<open>perm n\<close> is the
  permutation drawn for \<open>n\<close> indices.
\<close>

definition random_split :: "(nat \<Rightarrow> nat list) \<Rightarrow> 's list \<Rightarrow> int list \<Rightarrow> error + 's subset list" where
  "random_split perm dataset lengths =
     (case fraction_lengths (length dataset) lengths of
        Inl e \<Rightarrow> Inl e
      | Inr lengths' \<Rightarrow>
          if sum_list lengths' \<noteq> int (length dataset) then Inl ValueError
          else let indices = perm (nat (sum_list lengths'))
               in Inr (map (\<lambda>(offset, len). (dataset, slice indices (offset - len) offset))
                           (zip (accumulate lengths') lengths')))"

subsection \<open>\<^verbatim>\<open>forward\<close>\<close>

text \<open>
  Lines 84 to 87: the split of a cluster's view into training and validation samples.
  \<open>i\<close> is the index of the cluster and numbers the draws of the permutation.
\<close>

definition split_dataset ::
  "('d, 'c, 'x, 'a, 'f) collaborators \<Rightarrow> ('a, 'f) learner \<Rightarrow> nat \<Rightarrow> (bool \<times> 'x) list
    \<Rightarrow> error + (bool \<times> 'x) subset \<times> (bool \<times> 'x) subset" where
  "split_dataset co L i dataset =
     (case random_split (randperm co i) dataset
             [sample_size_psgd L, int (length dataset) - sample_size_psgd L] of
        Inl e \<Rightarrow> Inl e
      | Inr [dataset_train, dataset_val] \<Rightarrow> Inr (dataset_train, dataset_val)
      | Inr _ \<Rightarrow> Inl ValueError)"

text \<open>
  Lines 83 to 102: the selectors trained for cluster \<open>i\<close>. \<^verbatim>\<open>classifiers.size(0)\<close>
  is the number of rows of the cluster's dense matrix.
\<close>

definition train_selectors ::
  "('d, 'c, 'x, 'a, 'f) collaborators \<Rightarrow> ('a, 'f) learner \<Rightarrow> 'd \<Rightarrow> nat \<Rightarrow> 'c
    \<Rightarrow> error + 'a list list" where
  "train_selectors co L data i classifiers =
     (let dataset = TransformedDataset co data (Some classifiers)
      in case split_dataset co L i dataset of
           Inl e \<Rightarrow> Inl e
         | Inr (dataset_train, dataset_val) \<Rightarrow>
             SelectorPerceptron co (header L @ ''>'') (dim_sample L) (i + 1)
               (length (to_dense co classifiers)) (num_iter L) (lr_beta L) (batch_size L)
               dataset_train dataset_val (init_weight L))"

text \<open>
  The right-hand side of lines 104 to 108: the best pair of cluster \<open>i\<close>, by
  \<open>evaluate\<close> on the shared evaluation view.
\<close>

definition cluster_best ::
  "('d, 'c, 'x, 'a, 'f) collaborators \<Rightarrow> ('a, 'f) learner \<Rightarrow> 'd \<Rightarrow> (bool \<times> 'x) list \<Rightarrow> nat \<Rightarrow> 'c
    \<Rightarrow> error + 'a list \<times> 'a list" where
  "cluster_best co L data eval_dataset i classifiers =
     (case train_selectors co L data i classifiers of
        Inl e \<Rightarrow> Inl e
      | Inr selectors \<Rightarrow> evaluate co eval_dataset (to_dense co classifiers) selectors)"

text \<open>
  \<^verbatim>\<open>t[i, ...] = v\<close>: the row \<open>i\<close> of the matrix is overwritten by the vector \<open>v\<close>.
  A vector of one element is broadcast over the row (\<open>expand_as\<close>); any other
  length but the row's raises, and so does an index out of range.
\<close>

definition expand_as :: "'a list \<Rightarrow> nat \<Rightarrow> 'a list" where
  "expand_as v n = (if length v = n then v else replicate n (hd v))"

definition set_row :: "'a list list \<Rightarrow> nat \<Rightarrow> 'a list \<Rightarrow> error + 'a list list" where
  "set_row t i v =
     (if i < length t
      then (if length v = length (t ! i) \<or> length v = 1
            then Inr (t[i := expand_as v (length (t ! i))])
            else Inl RuntimeError)
      else Inl IndexError)"

text \<open>
  One iteration of the loop of lines 76 to 108. The state is the pair of candidate
  matrices.
\<close>

definition cluster_step ::
  "('d, 'c, 'x, 'a, 'f) collaborators \<Rightarrow> ('a, 'f) learner \<Rightarrow> 'd \<Rightarrow> (bool \<times> 'x) list \<Rightarrow> nat \<Rightarrow> 'c
    \<Rightarrow> 'a list list \<times> 'a list list \<Rightarrow> error + 'a list list \<times> 'a list list" where
  "cluster_step co L data eval_dataset i classifiers cands =
     (case cluster_best co L data eval_dataset i classifiers of
        Inl e \<Rightarrow> Inl e
      | Inr (c, s) \<Rightarrow>
          (case set_row (fst cands) i c of
             Inl e \<Rightarrow> Inl e
           | Inr candidate_classifiers \<Rightarrow>
               (case set_row (snd cands) i s of
                  Inl e \<Rightarrow> Inl e
                | Inr candidate_selectors \<Rightarrow>
                    Inr (candidate_classifiers, candidate_selectors))))"

text \<open>The loop over \<^verbatim>\<open>enumerate(sparse_classifier_clusters)\<close>, from index \<open>i\<close> on.\<close>

fun cluster_loop ::
  "('d, 'c, 'x, 'a, 'f) collaborators \<Rightarrow> ('a, 'f) learner \<Rightarrow> 'd \<Rightarrow> (bool \<times> 'x) list \<Rightarrow> nat
    \<Rightarrow> 'c list \<Rightarrow> 'a list list \<times> 'a list list \<Rightarrow> error + 'a list list \<times> 'a list list" where
  "cluster_loop co L data eval_dataset i [] cands = Inr cands"
| "cluster_loop co L data eval_dataset i (classifiers # rest) cands =
     (case cluster_step co L data eval_dataset i classifiers cands of
        Inl e \<Rightarrow> Inl e
      | Inr cands' \<Rightarrow> cluster_loop co L data eval_dataset (Suc i) rest cands')"

text \<open>\<^verbatim>\<open>forward\<close>, lines 65 to 115.\<close>

definition forward ::
  "('d, 'c, 'x, 'a::zero, 'f) collaborators \<Rightarrow> ('a, 'f) learner \<Rightarrow> 'd \<Rightarrow> 'c list
    \<Rightarrow> error + 'a list \<times> 'a list" where
  "forward co L data sparse_classifier_clusters =
     (let num_cluster = length sparse_classifier_clusters
      in case zeros2 num_cluster (dim_sample L) of
           Inl e \<Rightarrow> Inl e
         | Inr candidate_selectors \<Rightarrow>
             (case zeros2 num_cluster (dim_sample L) of
                Inl e \<Rightarrow> Inl e
              | Inr candidate_classifiers \<Rightarrow>
                  (let eval_dataset = TransformedDataset co data None
                   in case cluster_loop co L data eval_dataset 0 sparse_classifier_clusters
                             (candidate_classifiers, candidate_selectors) of
                        Inl e \<Rightarrow> Inl e
                      | Inr cands \<Rightarrow> evaluate co eval_dataset (fst cands) (snd cands))))"

text \<open>
  The text that \<^verbatim>\<open>forward\<close> itself prints on the standard output (line 110): the
  announcement of the final evaluation, once the candidate matrices exist and the loop
  over the clusters has completed, before the final call of \<^verbatim>\<open>evaluate\<close>. The
  progress bar of \<^verbatim>\<open>tqdm\<close> goes to the standard error and is not modelled.
\<close>

definition forward_stdout ::
  "('d, 'c, 'x, 'a::zero, 'f) collaborators \<Rightarrow> ('a, 'f) learner \<Rightarrow> 'd \<Rightarrow> 'c list
    \<Rightarrow> string list" where
  "forward_stdout co L data sparse_classifier_clusters =
     (let num_cluster = length sparse_classifier_clusters
      in case zeros2 num_cluster (dim_sample L) of
           Inl e \<Rightarrow> []
         | Inr candidate_selectors \<Rightarrow>
             (case zeros2 num_cluster (dim_sample L) of
                Inl e \<Rightarrow> []
              | Inr candidate_classifiers \<Rightarrow>
                  (let eval_dataset = TransformedDataset co data None
                   in case cluster_loop co L data eval_dataset 0 sparse_classifier_clusters
                             (candidate_classifiers, candidate_selectors) of
                        Inl e \<Rightarrow> []
                      | Inr cands \<Rightarrow>
                          [header L @ '' evaluating for the final candidates...''])))"

subsection \<open>The initial weight as a shared tensor\<close>

text \<open>
  Line 101 passes \<^verbatim>\<open>self.init_weight.to(data.device)\<close> to the trainer.
  \<^verbatim>\<open>Tensor.to\<close> returns the tensor itself when it is on the requested device
  already, and a copy on that device otherwise; \<^verbatim>\<open>init_weight\<close> is created by
  \<^verbatim>\<open>torch.zeros\<close>, on the CPU. So with data on the CPU the trainer is handed the
  tensor of the learner, not a copy, and a trainer that updates its initial weight in
  place writes \<^verbatim>\<open>self.init_weight\<close>.

  The functions of this subsection are lines 65 to 115 once more, with this effect made
  explicit. A trainer returns, with the selectors, the content in which it leaves the
  tensor it was passed; the learner is part of the state of the loop.
\<close>

datatype device = Cpu | Cuda nat

type_synonym ('x, 'a, 'f) inplace_trainer =
  "string \<Rightarrow> int \<Rightarrow> nat \<Rightarrow> nat \<Rightarrow> int \<Rightarrow> 'f \<Rightarrow> int \<Rightarrow>
    (bool \<times> 'x) subset \<Rightarrow> (bool \<times> 'x) subset \<Rightarrow> 'a list \<Rightarrow> error + 'a list list \<times> 'a list"

text \<open>
  The learner after a training run on data of the given device: its tensor holds what
  the trainer left when the trainer was passed the tensor itself.
\<close>

definition after_training :: "device \<Rightarrow> ('a, 'f) learner \<Rightarrow> 'a list \<Rightarrow> ('a, 'f) learner" where
  "after_training data_device L w = (if data_device = Cpu then L\<lparr>init_weight := w\<rparr> else L)"

text \<open>The selectors alone: the trainer as the function that \<open>SelectorPerceptron\<close> is.\<close>

definition trainer_result ::
  "('x, 'a, 'f) inplace_trainer \<Rightarrow> string \<Rightarrow> int \<Rightarrow> nat \<Rightarrow> nat \<Rightarrow> int \<Rightarrow> 'f \<Rightarrow> int \<Rightarrow>
    (bool \<times> 'x) subset \<Rightarrow> (bool \<times> 'x) subset \<Rightarrow> 'a list \<Rightarrow> error + 'a list list" where
  "trainer_result T h d cid n it lr b tr va w =
     (case T h d cid n it lr b tr va w of Inl e \<Rightarrow> Inl e | Inr r \<Rightarrow> Inr (fst r))"

text \<open>Lines 83 to 102.\<close>

definition train_selectors_inplace ::
  "('d, 'c, 'x, 'a, 'f) collaborators \<Rightarrow> ('x, 'a, 'f) inplace_trainer \<Rightarrow> device
    \<Rightarrow> ('a, 'f) learner \<Rightarrow> 'd \<Rightarrow> nat \<Rightarrow> 'c \<Rightarrow> error + 'a list list \<times> ('a, 'f) learner" where
  "train_selectors_inplace co T data_device L data i classifiers =
     (let dataset = TransformedDataset co data (Some classifiers)
      in case split_dataset co L i dataset of
           Inl e \<Rightarrow> Inl e
         | Inr (dataset_train, dataset_val) \<Rightarrow>
             (case T (header L @ ''>'') (dim_sample L) (i + 1)
                     (length (to_dense co classifiers)) (num_iter L) (lr_beta L) (batch_size L)
                     dataset_train dataset_val (init_weight L) of
                Inl e \<Rightarrow> Inl e
              | Inr r \<Rightarrow> Inr (fst r, after_training data_device L (snd r))))"

text \<open>One iteration of the loop, lines 83 to 108; the state is the candidate matrices and the learner.\<close>

definition cluster_step_inplace ::
  "('d, 'c, 'x, 'a, 'f) collaborators \<Rightarrow> ('x, 'a, 'f) inplace_trainer \<Rightarrow> device \<Rightarrow> 'd
    \<Rightarrow> (bool \<times> 'x) list \<Rightarrow> nat \<Rightarrow> 'c \<Rightarrow> ('a list list \<times> 'a list list) \<times> ('a, 'f) learner
    \<Rightarrow> error + ('a list list \<times> 'a list list) \<times> ('a, 'f) learner" where
  "cluster_step_inplace co T data_device data eval_dataset i classifiers st =
     (case train_selectors_inplace co T data_device (snd st) data i classifiers of
        Inl e \<Rightarrow> Inl e
      | Inr (selectors, L') \<Rightarrow>
          (case evaluate co eval_dataset (to_dense co classifiers) selectors of
             Inl e \<Rightarrow> Inl e
           | Inr (c, s) \<Rightarrow>
               (case set_row (fst (fst st)) i c of
                  Inl e \<Rightarrow> Inl e
                | Inr candidate_classifiers \<Rightarrow>
                    (case set_row (snd (fst st)) i s of
                       Inl e \<Rightarrow> Inl e
                     | Inr candidate_selectors \<Rightarrow>
                         Inr ((candidate_classifiers, candidate_selectors), L')))))"

fun cluster_loop_inplace ::
  "('d, 'c, 'x, 'a, 'f) collaborators \<Rightarrow> ('x, 'a, 'f) inplace_trainer \<Rightarrow> device \<Rightarrow> 'd
    \<Rightarrow> (bool \<times> 'x) list \<Rightarrow> nat \<Rightarrow> 'c list \<Rightarrow> ('a list list \<times> 'a list list) \<times> ('a, 'f) learner
    \<Rightarrow> error + ('a list list \<times> 'a list list) \<times> ('a, 'f) learner" where
  "cluster_loop_inplace co T data_device data eval_dataset i [] st = Inr st"
| "cluster_loop_inplace co T data_device data eval_dataset i (classifiers # rest) st =
     (case cluster_step_inplace co T data_device data eval_dataset i classifiers st of
        Inl e \<Rightarrow> Inl e
      | Inr st' \<Rightarrow> cluster_loop_inplace co T data_device data eval_dataset (Suc i) rest st')"

text \<open>
  The initial weights with which the loop calls the trainer, cluster by cluster: the
  content of \<^verbatim>\<open>self.init_weight\<close> at line 101 of every iteration that reaches it.
\<close>

fun training_seeds ::
  "('d, 'c, 'x, 'a, 'f) collaborators \<Rightarrow> ('x, 'a, 'f) inplace_trainer \<Rightarrow> device \<Rightarrow> 'd
    \<Rightarrow> (bool \<times> 'x) list \<Rightarrow> nat \<Rightarrow> 'c list \<Rightarrow> ('a list list \<times> 'a list list) \<times> ('a, 'f) learner
    \<Rightarrow> 'a list list" where
  "training_seeds co T data_device data eval_dataset i [] st = []"
| "training_seeds co T data_device data eval_dataset i (classifiers # rest) st =
     (case split_dataset co (snd st) i (TransformedDataset co data (Some classifiers)) of
        Inl e \<Rightarrow> []
      | Inr split \<Rightarrow>
          init_weight (snd st) #
          (case cluster_step_inplace co T data_device data eval_dataset i classifiers st of
             Inl e \<Rightarrow> []
           | Inr st' \<Rightarrow> training_seeds co T data_device data eval_dataset (Suc i) rest st'))"

text \<open>
  \<^verbatim>\<open>forward\<close>, lines 65 to 115: the returned pair, and the learner as the call leaves
  it.
\<close>

definition forward_inplace ::
  "('d, 'c, 'x, 'a::zero, 'f) collaborators \<Rightarrow> ('x, 'a, 'f) inplace_trainer \<Rightarrow> device
    \<Rightarrow> ('a, 'f) learner \<Rightarrow> 'd \<Rightarrow> 'c list \<Rightarrow> error + ('a list \<times> 'a list) \<times> ('a, 'f) learner" where
  "forward_inplace co T data_device L data sparse_classifier_clusters =
     (let num_cluster = length sparse_classifier_clusters
      in case zeros2 num_cluster (dim_sample L) of
           Inl e \<Rightarrow> Inl e
         | Inr candidate_selectors \<Rightarrow>
             (case zeros2 num_cluster (dim_sample L) of
                Inl e \<Rightarrow> Inl e
              | Inr candidate_classifiers \<Rightarrow>
                  (let eval_dataset = TransformedDataset co data None
                   in case cluster_loop_inplace co T data_device data eval_dataset 0
                             sparse_classifier_clusters
                             ((candidate_classifiers, candidate_selectors), L) of
                        Inl e \<Rightarrow> Inl e
                      | Inr st \<Rightarrow>
                          (case evaluate co eval_dataset (fst (fst st)) (snd (fst st)) of
                             Inl e \<Rightarrow> Inl e
                           | Inr pair \<Rightarrow> Inr (pair, snd st)))))"

subsection \<open>A small instance\<close>

text \<open>
  Concrete collaborators, on which the theorems below are exercised: integer weights
  and features, a sample classified as true when its dot product with the weight vector
  is positive, a trainer that returns its initial weight for every classifier of the
  cluster, the reversed identity as permutation, the exact quotient and exact real
  arithmetic for the step size. A second trainer returns the same selectors and adds 1
  to every entry of the tensor it was passed.
\<close>

definition dot :: "int list \<Rightarrow> int list \<Rightarrow> int" where
  "dot w x = sum_list (map2 (\<lambda>a b. a * b) w x)"

definition demo_classify :: "int list list \<Rightarrow> int list list \<Rightarrow> bool list list" where
  "demo_classify W X = map (\<lambda>w. map (\<lambda>x. 0 < dot w x) X) W"

definition demo_trainer ::
  "string \<Rightarrow> int \<Rightarrow> nat \<Rightarrow> nat \<Rightarrow> int \<Rightarrow> real \<Rightarrow> int \<Rightarrow> (bool \<times> int list) subset
    \<Rightarrow> (bool \<times> int list) subset \<Rightarrow> int list \<Rightarrow> error + int list list" where
  "demo_trainer prev_header d cluster_id cluster_size iters lr batch train val w =
     Inr (replicate cluster_size w)"

definition demo_co ::
  "((bool \<times> int list) list, int list list, int list, int, real) collaborators" where
  "demo_co = \<lparr> to_dense = (\<lambda>c. c),
               TransformedDataset = (\<lambda>data c. data),
               Classify = demo_classify,
               randperm = (\<lambda>i n. rev [0..<n]),
               SelectorPerceptron = demo_trainer,
               true_divide = (\<lambda>n d. of_nat n / of_nat d) \<rparr>"

definition demo_data :: "(bool \<times> int list) list" where
  "demo_data = [(False, [1, 0]), (False, [1, 0]), (True, [0, 1]), (True, [0, 1])]"

definition demo_float :: "(real, real) float_ops" where
  "demo_float = \<lparr> py_div = (\<lambda>a b. real_of_int a / real_of_int b),
                  tensor = (\<lambda>x. x),
                  torch_sqrt = sqrt,
                  scalar_mul = (\<lambda>c t. c * t) \<rparr>"

definition demo_inplace_trainer :: "(int list, int, real) inplace_trainer" where
  "demo_inplace_trainer prev_header d cluster_id cluster_size iters lr batch train val w =
     Inr (replicate cluster_size w, map (\<lambda>x. x + 1) w)"

definition demo_learner :: "(int, real) learner" where
  "demo_learner = \<lparr> header = ''demo conditional learner -'',
                    dim_sample = 2,
                    num_iter = 2,
                    batch_size = 32,
                    sample_size_psgd = 3,
                    lr_beta = 1 / 2,
                    init_weight = [1, 0] \<rparr>"

section \<open>Properties of \<^verbatim>\<open>evaluate\<close>\<close>

subsection \<open>The conditional error rate\<close>

lemma count_true_conj_le: "count_true (map2 (\<lambda>a b. a \<and> b) e s) \<le> count_true s"
proof (induction e arbitrary: s)
  case Nil
  then show ?case by (simp add: count_true_def)
next
  case (Cons a e)
  then show ?case
  proof (cases s)
    case Nil
    then show ?thesis by (simp add: count_true_def)
  next
    case (Cons b s')
    have "count_true (map2 (\<lambda>a b. a \<and> b) e s') \<le> count_true s'" by (rule Cons.IH)
    then show ?thesis using Cons by (auto simp: count_true_def)
  qed
qed

lemma mul_Inr:
  assumes "mul E S = Inr B"
  shows "length E = length S" and "length B = length S"
    and "\<And>i. i < length S \<Longrightarrow> B ! i = map2 (\<lambda>a b. a \<and> b) (E ! i) (S ! i)"
    and "\<And>i. i < length S \<Longrightarrow> length (E ! i) = length (S ! i)"
  using assms by (auto simp: mul_def list_all2_conv_all_nth split: if_splits)

lemma float_div_rate:
  assumes "n \<le> d"
  shows "(if float_div fd n d = NaN then Val 1 else float_div fd n d)
         = (if d = 0 then Val 1 else Val (fd n d))"
  using assms by (simp add: float_div_def)

lemma conditional_error_rate_Inr:
  assumes "conditional_error_rate fd E S = Inr rate"
  shows "length rate = length S"
    and "\<And>i. i < length S \<Longrightarrow>
           rate ! i = (if count_true (S ! i) = 0 then Val 1
                       else Val (fd (count_true (map2 (\<lambda>a b. a \<and> b) (E ! i) (S ! i)))
                                    (count_true (S ! i))))"
proof -
  obtain B where B: "mul E S = Inr B"
    using assms by (auto simp: conditional_error_rate_def split: sum.splits)
  have rate: "rate = nan_to_one (map2 (float_div fd) (sum_rows B) (sum_rows S))"
    using assms B by (auto simp: conditional_error_rate_def divide_def split: sum.splits if_splits)
  have len: "length B = length S" using mul_Inr(2)[OF B] .
  show "length rate = length S"
    by (simp add: rate nan_to_one_def sum_rows_def len)
  fix i assume i: "i < length S"
  have Bi: "B ! i = map2 (\<lambda>a b. a \<and> b) (E ! i) (S ! i)" using mul_Inr(3)[OF B i] .
  have le: "count_true (B ! i) \<le> count_true (S ! i)"
    unfolding Bi by (rule count_true_conj_le)
  have "rate ! i = (let r = float_div fd (count_true (B ! i)) (count_true (S ! i))
                    in if r = NaN then Val 1 else r)"
    using i len by (simp add: rate nan_to_one_def sum_rows_def Let_def)
  also have "\<dots> = (if count_true (S ! i) = 0 then Val 1
                    else Val (fd (count_true (B ! i)) (count_true (S ! i))))"
    using float_div_rate[OF le] by (simp add: Let_def)
  finally show "rate ! i = (if count_true (S ! i) = 0 then Val 1
                       else Val (fd (count_true (map2 (\<lambda>a b. a \<and> b) (E ! i) (S ! i)))
                                    (count_true (S ! i))))"
    by (simp add: Bi)
qed

lemma conditional_error_rate_all_Val:
  assumes "conditional_error_rate fd E S = Inr rate"
  shows "\<forall>r \<in> set rate. \<exists>q. r = Val q"
proof
  fix r assume "r \<in> set rate"
  then obtain i where i: "i < length rate" and r: "r = rate ! i"
    by (auto simp: in_set_conv_nth)
  have "i < length S" using i conditional_error_rate_Inr(1)[OF assms] by simp
  from conditional_error_rate_Inr(2)[OF assms this] show "\<exists>q. r = Val q"
    unfolding r by (cases "count_true (S ! i) = 0") auto
qed

lemma min_scan_spec:
  assumes "\<forall>x \<in> set (m # xs). \<exists>q. x = Val q"
  shows "(min_scan (m, k) i xs = (m, k) \<and> (\<forall>x \<in> set xs. \<not> fless x m))
       \<or> (\<exists>j < length xs. min_scan (m, k) i xs = (xs ! j, i + j) \<and> fless (xs ! j) m
            \<and> (\<forall>l < j. fless (xs ! j) (xs ! l)) \<and> (\<forall>l < length xs. \<not> fless (xs ! l) (xs ! j)))"
  using assms
proof (induction xs arbitrary: m k i)
  case Nil
  then show ?case by simp
next
  case (Cons x xs)
  obtain qm qx where qm: "m = Val qm" and qx: "x = Val qx" using Cons.prems by auto
  have vals: "\<forall>y \<in> set xs. \<exists>q. y = Val q" using Cons.prems by auto
  show ?case
  proof (cases "fless x m")
    case True
    have step: "min_scan (m, k) i (x # xs) = min_scan (x, i) (Suc i) xs"
      using True qm qx by simp
    have "\<forall>y \<in> set (x # xs). \<exists>q. y = Val q" using vals qx by auto
    from Cons.IH[OF this, of i "Suc i"] show ?thesis
    proof
      assume a: "min_scan (x, i) (Suc i) xs = (x, i) \<and> (\<forall>y \<in> set xs. \<not> fless y x)"
      have "\<forall>l < length (x # xs). \<not> fless ((x # xs) ! l) x"
      proof (intro allI impI)
        fix l assume "l < length (x # xs)"
        then show "\<not> fless ((x # xs) ! l) x"
          using a qx by (cases l) auto
      qed
      then have "0 < length (x # xs) \<and> min_scan (m, k) i (x # xs) = ((x # xs) ! 0, i + 0)
           \<and> fless ((x # xs) ! 0) m \<and> (\<forall>l < 0. fless ((x # xs) ! 0) ((x # xs) ! l))
           \<and> (\<forall>l < length (x # xs). \<not> fless ((x # xs) ! l) ((x # xs) ! 0))"
        using step a True by simp
      then show ?thesis by blast
    next
      assume "\<exists>j < length xs. min_scan (x, i) (Suc i) xs = (xs ! j, Suc i + j) \<and> fless (xs ! j) x
            \<and> (\<forall>l < j. fless (xs ! j) (xs ! l)) \<and> (\<forall>l < length xs. \<not> fless (xs ! l) (xs ! j))"
      then obtain j where j: "j < length xs"
        and r: "min_scan (x, i) (Suc i) xs = (xs ! j, Suc i + j)"
        and lt: "fless (xs ! j) x"
        and first: "\<forall>l < j. fless (xs ! j) (xs ! l)"
        and least: "\<forall>l < length xs. \<not> fless (xs ! l) (xs ! j)" by blast
      obtain qj where qj: "xs ! j = Val qj" using vals j by (meson nth_mem)
      have 1: "fless ((x # xs) ! Suc j) m" using lt True qm qx qj by simp
      have 2: "\<forall>l < Suc j. fless ((x # xs) ! Suc j) ((x # xs) ! l)"
      proof (intro allI impI)
        fix l assume "l < Suc j"
        then show "fless ((x # xs) ! Suc j) ((x # xs) ! l)"
          using first lt by (cases l) auto
      qed
      have 3: "\<forall>l < length (x # xs). \<not> fless ((x # xs) ! l) ((x # xs) ! Suc j)"
      proof (intro allI impI)
        fix l assume "l < length (x # xs)"
        then show "\<not> fless ((x # xs) ! l) ((x # xs) ! Suc j)"
          using least lt qx qj by (cases l) auto
      qed
      have "Suc j < length (x # xs) \<and> min_scan (m, k) i (x # xs) = ((x # xs) ! Suc j, i + Suc j)"
        using j step r by simp
      with 1 2 3 show ?thesis by blast
    qed
  next
    case False
    have step: "min_scan (m, k) i (x # xs) = min_scan (m, k) (Suc i) xs"
      using False qm qx by simp
    have "\<forall>y \<in> set (m # xs). \<exists>q. y = Val q" using vals qm by auto
    from Cons.IH[OF this, of k "Suc i"] show ?thesis
    proof
      assume "min_scan (m, k) (Suc i) xs = (m, k) \<and> (\<forall>y \<in> set xs. \<not> fless y m)"
      then show ?thesis using step False by auto
    next
      assume "\<exists>j < length xs. min_scan (m, k) (Suc i) xs = (xs ! j, Suc i + j) \<and> fless (xs ! j) m
            \<and> (\<forall>l < j. fless (xs ! j) (xs ! l)) \<and> (\<forall>l < length xs. \<not> fless (xs ! l) (xs ! j))"
      then obtain j where j: "j < length xs"
        and r: "min_scan (m, k) (Suc i) xs = (xs ! j, Suc i + j)"
        and lt: "fless (xs ! j) m"
        and first: "\<forall>l < j. fless (xs ! j) (xs ! l)"
        and least: "\<forall>l < length xs. \<not> fless (xs ! l) (xs ! j)" by blast
      obtain qj where qj: "xs ! j = Val qj" using vals j by (meson nth_mem)
      have 1: "fless ((x # xs) ! Suc j) m" using lt by simp
      have 2: "\<forall>l < Suc j. fless ((x # xs) ! Suc j) ((x # xs) ! l)"
      proof (intro allI impI)
        fix l assume "l < Suc j"
        then show "fless ((x # xs) ! Suc j) ((x # xs) ! l)"
          using first lt False qm qx qj by (cases l) auto
      qed
      have 3: "\<forall>l < length (x # xs). \<not> fless ((x # xs) ! l) ((x # xs) ! Suc j)"
      proof (intro allI impI)
        fix l assume "l < length (x # xs)"
        then show "\<not> fless ((x # xs) ! l) ((x # xs) ! Suc j)"
          using least lt False qm qx qj by (cases l) auto
      qed
      have "Suc j < length (x # xs) \<and> min_scan (m, k) i (x # xs) = ((x # xs) ! Suc j, i + Suc j)"
        using j step r by simp
      with 1 2 3 show ?thesis by blast
    qed
  qed
qed

lemma torch_min_spec:
  assumes "rs \<noteq> []" and "\<forall>x \<in> set rs. \<exists>q. x = Val q"
  shows "\<exists>k < length rs. torch_min rs = Inr (rs ! k, k)
           \<and> (\<forall>l < k. fless (rs ! k) (rs ! l)) \<and> (\<forall>l < length rs. \<not> fless (rs ! l) (rs ! k))"
proof -
  obtain x xs where rs: "rs = x # xs" using assms(1) by (cases rs) auto
  obtain qx where qx: "x = Val qx" using assms(2) rs by auto
  have tm: "torch_min rs = Inr (min_scan (x, 0) 1 xs)" by (simp add: torch_min_def rs)
  have "\<forall>y \<in> set (x # xs). \<exists>q. y = Val q" using assms(2) rs by simp
  from min_scan_spec[OF this, of 0 1] show ?thesis
  proof
    assume a: "min_scan (x, 0) 1 xs = (x, 0) \<and> (\<forall>y \<in> set xs. \<not> fless y x)"
    have "\<forall>l < length rs. \<not> fless (rs ! l) (rs ! 0)"
    proof (intro allI impI)
      fix l assume "l < length rs"
      then show "\<not> fless (rs ! l) (rs ! 0)" using a qx rs by (cases l) auto
    qed
    then have "0 < length rs \<and> torch_min rs = Inr (rs ! 0, 0)
           \<and> (\<forall>l < 0. fless (rs ! 0) (rs ! l)) \<and> (\<forall>l < length rs. \<not> fless (rs ! l) (rs ! 0))"
      using a tm rs by simp
    then show ?thesis by blast
  next
    assume "\<exists>j < length xs. min_scan (x, 0) 1 xs = (xs ! j, 1 + j) \<and> fless (xs ! j) x
            \<and> (\<forall>l < j. fless (xs ! j) (xs ! l)) \<and> (\<forall>l < length xs. \<not> fless (xs ! l) (xs ! j))"
    then obtain j where j: "j < length xs"
      and r: "min_scan (x, 0) 1 xs = (xs ! j, 1 + j)"
      and lt: "fless (xs ! j) x"
      and first: "\<forall>l < j. fless (xs ! j) (xs ! l)"
      and least: "\<forall>l < length xs. \<not> fless (xs ! l) (xs ! j)" by blast
    obtain qj where qj: "xs ! j = Val qj" using assms(2) rs j by (metis list.set_intros(2) nth_mem)
    have 2: "\<forall>l < Suc j. fless (rs ! Suc j) (rs ! l)"
    proof (intro allI impI)
      fix l assume "l < Suc j"
      then show "fless (rs ! Suc j) (rs ! l)" using first lt rs by (cases l) auto
    qed
    have 3: "\<forall>l < length rs. \<not> fless (rs ! l) (rs ! Suc j)"
    proof (intro allI impI)
      fix l assume "l < length rs"
      then show "\<not> fless (rs ! l) (rs ! Suc j)" using least lt qx qj rs by (cases l) auto
    qed
    have "Suc j < length rs \<and> torch_min rs = Inr (rs ! Suc j, Suc j)"
      using j tm r rs by simp
    with 2 3 show ?thesis by blast
  qed
qed

lemma count_true_zero_iff: "count_true bs = 0 \<longleftrightarrow> True \<notin> set bs"
  by (induction bs) (auto simp: count_true_def)

lemma count_true_card: "count_true bs = card {j. j < length bs \<and> bs ! j}"
  by (simp add: count_true_def length_filter_conv_card)

lemma not_equal_Inr:
  assumes "not_equal preds labels = Inr E"
  shows "length E = length preds"
    and "\<And>i. i < length preds \<Longrightarrow> length (preds ! i) = length labels"
    and "\<And>i. i < length preds \<Longrightarrow> E ! i = map2 (\<lambda>p l. p \<noteq> l) (preds ! i) labels"
  using assms by (auto simp: not_equal_def list_all_length split: if_splits)

lemma error_rates_Inr:
  assumes "error_rates co ds cls sels = Inr rate"
  shows "\<exists>E. not_equal (Classify co cls (map snd ds)) (map fst ds) = Inr E
           \<and> conditional_error_rate (true_divide co) E (Classify co sels (map snd ds)) = Inr rate"
  using assms by (auto simp: error_rates_def Let_def split: sum.splits)

lemma error_rates_total:
  assumes "classify_ok co" and "length sels = length cls"
  shows "\<exists>rate. error_rates co ds cls sels = Inr rate \<and> length rate = length cls"
proof -
  let ?P = "Classify co cls (map snd ds)" and ?S = "Classify co sels (map snd ds)"
  have P: "length ?P = length cls" "list_all (\<lambda>row. length row = length ds) ?P"
    using assms(1) unfolding classify_ok_def by (metis length_map)+
  have S: "length ?S = length sels" "list_all (\<lambda>row. length row = length ds) ?S"
    using assms(1) unfolding classify_ok_def by (metis length_map)+
  let ?E = "map (\<lambda>row. map2 (\<lambda>p l. p \<noteq> l) row (map fst ds)) ?P"
  have ne: "not_equal ?P (map fst ds) = Inr ?E"
    using P(2) by (simp add: not_equal_def)
  have "list_all2 (\<lambda>e s. length e = length s) ?E ?S"
    using P S assms(2) by (auto simp: list_all2_conv_all_nth list_all_length)
  then have "mul ?E ?S = Inr (map2 (\<lambda>e s. map2 (\<lambda>a b. a \<and> b) e s) ?E ?S)"
    by (simp add: mul_def)
  then obtain rate where r: "conditional_error_rate (true_divide co) ?E ?S = Inr rate"
    using P S assms(2) by (simp add: conditional_error_rate_def divide_def sum_rows_def)
  have "error_rates co ds cls sels = Inr rate"
    using ne r by (simp add: error_rates_def Let_def)
  moreover have "length rate = length cls"
    using conditional_error_rate_Inr(1)[OF r] S(1) assms(2) by simp
  ultimately show ?thesis by blast
qed

text \<open>
  Claim C1. In every call to \<^verbatim>\<open>evaluate\<close>, a row whose selector selects no sample
  of the evaluation view has conditional error rate exactly 1. No rate is NaN, so the
  arg-min over a nonempty vector of rates is defined: \<open>torch_min\<close> returns an index of
  the vector and the rate at this index.
\<close>

theorem evaluate_zero_selection_rate_one:
  assumes "error_rates co eval_dataset classifiers selectors = Inr rate"
  shows "length rate = length (Classify co selectors (map snd eval_dataset))
       \<and> (\<forall>i < length rate. True \<notin> set (Classify co selectors (map snd eval_dataset) ! i)
              \<longrightarrow> rate ! i = Val 1)
       \<and> NaN \<notin> set rate
       \<and> (rate \<noteq> [] \<longrightarrow> (\<exists>k < length rate. torch_min rate = Inr (rate ! k, k)))"
proof -
  let ?S = "Classify co selectors (map snd eval_dataset)"
  obtain E where r: "conditional_error_rate (true_divide co) E ?S = Inr rate"
    using error_rates_Inr[OF assms] by blast
  have len: "length rate = length ?S" by (rule conditional_error_rate_Inr(1)[OF r])
  have vals: "\<forall>x \<in> set rate. \<exists>q. x = Val q" by (rule conditional_error_rate_all_Val[OF r])
  have one: "\<forall>i < length rate. True \<notin> set (?S ! i) \<longrightarrow> rate ! i = Val 1"
    using conditional_error_rate_Inr(2)[OF r] len by (simp add: count_true_zero_iff)
  have nonan: "NaN \<notin> set rate" using vals by auto
  have "rate \<noteq> [] \<longrightarrow> (\<exists>k < length rate. torch_min rate = Inr (rate ! k, k))"
    using torch_min_spec[OF _ vals] by blast
  with len one nonan show ?thesis by blast
qed

theorem evaluate_zero_selection_rate_one_witness:
  "error_rates demo_co demo_data [[0, 1]] [[0, 0]] = Inr [Val 1]
   \<and> True \<notin> set (Classify demo_co [[0, 0]] (map snd demo_data) ! 0)
   \<and> [Val 1] ! 0 = Val 1 \<and> NaN \<notin> set [Val 1]
   \<and> (\<exists>k < length [Val 1]. torch_min [Val 1] = Inr ([Val 1] ! k, k))"
proof -
  have h: "error_rates demo_co demo_data [[0, 1]] [[0, 0]] = Inr [Val 1]"
    by (simp add: error_rates_def demo_co_def demo_data_def demo_classify_def dot_def not_equal_def
      conditional_error_rate_def mul_def divide_def sum_rows_def count_true_def nan_to_one_def
      float_div_def)
  have s: "True \<notin> set (Classify demo_co [[0, 0]] (map snd demo_data) ! 0)"
    by (simp add: demo_co_def demo_data_def demo_classify_def dot_def)
  show ?thesis using h s evaluate_zero_selection_rate_one[OF h] by auto
qed

text \<open>
  Claim C2. In every call to \<^verbatim>\<open>evaluate\<close>, the conditional error rate of a row
  whose selector selects at least one sample is the quotient of two counts: the number
  of samples that the row's classifier misclassifies (its prediction differs from the
  label) and that the row's selector selects, and the number of samples that the row's
  selector selects.
\<close>

theorem evaluate_rate_is_conditional_error:
  assumes "error_rates co eval_dataset classifiers selectors = Inr rate"
    and "preds = Classify co classifiers (map snd eval_dataset)"
    and "selections = Classify co selectors (map snd eval_dataset)"
    and "labels = map fst eval_dataset"
  shows "\<forall>i < length rate. True \<in> set (selections ! i) \<longrightarrow>
           rate ! i = Val (true_divide co
             (card {j. j < length eval_dataset \<and> preds ! i ! j \<noteq> labels ! j \<and> selections ! i ! j})
             (card {j. j < length eval_dataset \<and> selections ! i ! j}))"
proof (intro allI impI)
  fix i assume i: "i < length rate" and sel: "True \<in> set (selections ! i)"
  obtain E where E: "not_equal preds labels = Inr E"
    and r: "conditional_error_rate (true_divide co) E selections = Inr rate"
    using error_rates_Inr[OF assms(1)] assms(2-4) by blast
  obtain B where B: "mul E selections = Inr B"
    using r by (auto simp: conditional_error_rate_def split: sum.splits)
  have len: "length rate = length selections" by (rule conditional_error_rate_Inr(1)[OF r])
  have iS: "i < length selections" using i len by simp
  have iP: "i < length preds" using iS mul_Inr(1)[OF B] not_equal_Inr(1)[OF E] by simp
  have lP: "length (preds ! i) = length eval_dataset"
    using not_equal_Inr(2)[OF E iP] assms(4) by simp
  have Ei: "E ! i = map2 (\<lambda>p l. p \<noteq> l) (preds ! i) labels" by (rule not_equal_Inr(3)[OF E iP])
  have lE: "length (E ! i) = length eval_dataset" using lP assms(4) by (simp add: Ei)
  have lS: "length (selections ! i) = length eval_dataset" using mul_Inr(4)[OF B iS] lE by simp
  have nz: "count_true (selections ! i) \<noteq> 0" using sel by (simp add: count_true_zero_iff)
  have ri: "rate ! i = Val (true_divide co (count_true (map2 (\<lambda>a b. a \<and> b) (E ! i) (selections ! i)))
                                             (count_true (selections ! i)))"
    using conditional_error_rate_Inr(2)[OF r iS] nz by simp
  have den: "count_true (selections ! i) = card {j. j < length eval_dataset \<and> selections ! i ! j}"
    by (simp add: count_true_card lS)
  have "\<And>j. j < length eval_dataset \<Longrightarrow>
          map2 (\<lambda>a b. a \<and> b) (E ! i) (selections ! i) ! j
            = ((preds ! i ! j \<noteq> labels ! j) \<and> selections ! i ! j)"
    using lE lS lP assms(4) by (simp add: Ei)
  then have "{j. j < length eval_dataset \<and> map2 (\<lambda>a b. a \<and> b) (E ! i) (selections ! i) ! j}
        = {j. j < length eval_dataset \<and> preds ! i ! j \<noteq> labels ! j \<and> selections ! i ! j}"
    by blast
  then have num: "count_true (map2 (\<lambda>a b. a \<and> b) (E ! i) (selections ! i))
      = card {j. j < length eval_dataset \<and> preds ! i ! j \<noteq> labels ! j \<and> selections ! i ! j}"
    using lE lS by (simp add: count_true_card)
  show "rate ! i = Val (true_divide co
             (card {j. j < length eval_dataset \<and> preds ! i ! j \<noteq> labels ! j \<and> selections ! i ! j})
             (card {j. j < length eval_dataset \<and> selections ! i ! j}))"
    using ri den num by simp
qed

theorem evaluate_rate_is_conditional_error_witness:
  "error_rates demo_co demo_data [[0, 1], [1, 0], [1, 1]] [[0, 0], [1, 0], [1, 1]]
     = Inr [Val 1, Val 1, Val (1 / 2)]
   \<and> True \<in> set (Classify demo_co [[0, 0], [1, 0], [1, 1]] (map snd demo_data) ! 2)
   \<and> Val (1 / 2) = Val (true_divide demo_co
       (card {j. j < length demo_data
                 \<and> Classify demo_co [[0, 1], [1, 0], [1, 1]] (map snd demo_data) ! 2 ! j
                     \<noteq> map fst demo_data ! j
                 \<and> Classify demo_co [[0, 0], [1, 0], [1, 1]] (map snd demo_data) ! 2 ! j})
       (card {j. j < length demo_data
                 \<and> Classify demo_co [[0, 0], [1, 0], [1, 1]] (map snd demo_data) ! 2 ! j}))"
proof -
  have h: "error_rates demo_co demo_data [[0, 1], [1, 0], [1, 1]] [[0, 0], [1, 0], [1, 1]]
     = Inr [Val 1, Val 1, Val (1 / 2)]"
    by (simp add: error_rates_def demo_co_def demo_data_def demo_classify_def dot_def not_equal_def
      conditional_error_rate_def mul_def divide_def sum_rows_def count_true_def nan_to_one_def
      float_div_def)
  have s: "True \<in> set (Classify demo_co [[0, 0], [1, 0], [1, 1]] (map snd demo_data) ! 2)"
    by (simp add: demo_co_def demo_data_def demo_classify_def dot_def)
  have i2: "2 < length [Val 1, Val 1, Val (1 / 2)]" by simp
  have "[Val 1, Val 1, Val (1 / 2)] ! 2 = Val (true_divide demo_co
       (card {j. j < length demo_data
                 \<and> Classify demo_co [[0, 1], [1, 0], [1, 1]] (map snd demo_data) ! 2 ! j
                     \<noteq> map fst demo_data ! j
                 \<and> Classify demo_co [[0, 0], [1, 0], [1, 1]] (map snd demo_data) ! 2 ! j})
       (card {j. j < length demo_data
                 \<and> Classify demo_co [[0, 0], [1, 0], [1, 1]] (map snd demo_data) ! 2 ! j}))"
    using evaluate_rate_is_conditional_error[OF h refl refl refl] s i2 by blast
  then show ?thesis using h s by simp
qed

text \<open>
  Claim C3. With the shape contract of \<open>Classify\<close>, as many selectors as classifiers
  and at least one classifier, \<^verbatim>\<open>evaluate\<close> returns the classifier and the selector
  of one row \<open>k\<close>: no row has a smaller conditional error rate, and every row before
  \<open>k\<close> has a strictly greater one (the first minimum). When no selector selects
  any sample, every rate is 1 and row 0 is returned.
\<close>

theorem evaluate_returns_first_minimum:
  assumes "classify_ok co" and "length selectors = length classifiers" and "classifiers \<noteq> []"
  shows "\<exists>rate k. error_rates co eval_dataset classifiers selectors = Inr rate
           \<and> length rate = length classifiers \<and> k < length classifiers
           \<and> evaluate co eval_dataset classifiers selectors = Inr (classifiers ! k, selectors ! k)
           \<and> (\<forall>r \<in> set rate. \<exists>q. r = Val q)
           \<and> (\<forall>j < length classifiers. \<not> fless (rate ! j) (rate ! k))
           \<and> (\<forall>j < k. fless (rate ! k) (rate ! j))
           \<and> ((\<forall>i < length classifiers.
                  True \<notin> set (Classify co selectors (map snd eval_dataset) ! i))
                \<longrightarrow> k = 0 \<and> (\<forall>i < length classifiers. rate ! i = Val 1))"
proof -
  obtain rate where rate: "error_rates co eval_dataset classifiers selectors = Inr rate"
    and len: "length rate = length classifiers"
    using error_rates_total[OF assms(1,2)] by blast
  obtain E where r: "conditional_error_rate (true_divide co) E
      (Classify co selectors (map snd eval_dataset)) = Inr rate"
    using error_rates_Inr[OF rate] by blast
  have vals: "\<forall>x \<in> set rate. \<exists>q. x = Val q" by (rule conditional_error_rate_all_Val[OF r])
  have ne: "rate \<noteq> []" using len assms(3) by auto
  obtain k where k: "k < length rate" and tm: "torch_min rate = Inr (rate ! k, k)"
    and first: "\<forall>l < k. fless (rate ! k) (rate ! l)"
    and least: "\<forall>l < length rate. \<not> fless (rate ! l) (rate ! k)"
    using torch_min_spec[OF ne vals] by blast
  have ev: "evaluate co eval_dataset classifiers selectors = Inr (classifiers ! k, selectors ! k)"
    using rate tm k len assms(2) by (simp add: evaluate_def get_row_def)
  have zero: "(\<forall>i < length classifiers.
                  True \<notin> set (Classify co selectors (map snd eval_dataset) ! i))
                \<longrightarrow> k = 0 \<and> (\<forall>i < length classifiers. rate ! i = Val 1)"
  proof
    assume a: "\<forall>i < length classifiers.
                  True \<notin> set (Classify co selectors (map snd eval_dataset) ! i)"
    have lS: "length (Classify co selectors (map snd eval_dataset)) = length classifiers"
      using conditional_error_rate_Inr(1)[OF r] len by simp
    have ones: "\<forall>i < length classifiers. rate ! i = Val 1"
      using conditional_error_rate_Inr(2)[OF r] a lS by (simp add: count_true_zero_iff)
    have "k = 0"
    proof (rule ccontr)
      assume "k \<noteq> 0"
      then have "fless (rate ! k) (rate ! 0)" using first by simp
      then show False using ones k len assms(3) by simp
    qed
    then show "k = 0 \<and> (\<forall>i < length classifiers. rate ! i = Val 1)" using ones by simp
  qed
  show ?thesis using rate len k ev vals first least zero by auto
qed

theorem evaluate_returns_first_minimum_witness:
  "classify_ok demo_co
   \<and> length [[0, 0], [1, 0], [1, 1 :: int]] = length [[0, 1], [1, 0], [1, 1 :: int]]
   \<and> [[0, 1], [1, 0], [1, 1 :: int]] \<noteq> []
   \<and> evaluate demo_co demo_data [[0, 1], [1, 0], [1, 1]] [[0, 0], [1, 0], [1, 1]]
       = Inr ([1, 1], [1, 1])"
proof -
  have ok: "classify_ok demo_co"
    by (simp add: classify_ok_def demo_co_def demo_classify_def list_all_iff)
  have len: "length [[0, 0], [1, 0], [1, 1 :: int]] = length [[0, 1], [1, 0], [1, 1 :: int]]"
    by simp
  have ne: "[[0, 1], [1, 0], [1, 1 :: int]] \<noteq> []" by simp
  have h: "error_rates demo_co demo_data [[0, 1], [1, 0], [1, 1]] [[0, 0], [1, 0], [1, 1]]
     = Inr [Val 1, Val 1, Val (1 / 2)]"
    by (simp add: error_rates_def demo_co_def demo_data_def demo_classify_def dot_def not_equal_def
      conditional_error_rate_def mul_def divide_def sum_rows_def count_true_def nan_to_one_def
      float_div_def)
  obtain rate k where r: "error_rates demo_co demo_data [[0, 1], [1, 0], [1, 1]]
        [[0, 0], [1, 0], [1, 1]] = Inr rate"
    and k: "k < length [[0, 1], [1, 0], [1, 1 :: int]]"
    and ev: "evaluate demo_co demo_data [[0, 1], [1, 0], [1, 1]] [[0, 0], [1, 0], [1, 1]]
        = Inr ([[0, 1], [1, 0], [1, 1]] ! k, [[0, 0], [1, 0], [1, 1]] ! k)"
    and least: "\<forall>j < length [[0, 1], [1, 0], [1, 1 :: int]]. \<not> fless (rate ! j) (rate ! k)"
    using evaluate_returns_first_minimum[OF ok len ne, of demo_data] by blast
  have rate: "rate = [Val 1, Val 1, Val (1 / 2)]" using r h by simp
  have "k = 2"
  proof -
    have nl: "\<not> fless (rate ! 2) (rate ! k)" using least by simp
    have k3: "k = 0 \<or> k = 1 \<or> k = 2" using k by auto
    have k0: "k \<noteq> 0"
    proof
      assume "k = 0"
      then show False using nl by (simp add: rate)
    qed
    have k1: "k \<noteq> 1"
    proof
      assume "k = 1"
      then show False using nl by (simp add: rate)
    qed
    show ?thesis using k3 k0 k1 by blast
  qed
  then show ?thesis using ok ev by simp
qed

section \<open>Properties of the constructor and of \<^verbatim>\<open>forward\<close>\<close>

subsection \<open>Results of \<^verbatim>\<open>evaluate\<close>, the constructor and the split\<close>

lemma evaluate_Inr:
  assumes "evaluate co ev cls sels = Inr (c, s)"
  shows "\<exists>k. k < length cls \<and> k < length sels \<and> c = cls ! k \<and> s = sels ! k"
  using assms by (auto simp: evaluate_def get_row_def split: sum.splits prod.splits if_splits)

lemma evaluate_total:
  assumes "classify_ok co" and "length sels = length cls" and "cls \<noteq> []"
  shows "\<exists>k < length cls. evaluate co ev cls sels = Inr (cls ! k, sels ! k)"
proof -
  obtain rate where rate: "error_rates co ev cls sels = Inr rate"
    and len: "length rate = length cls"
    using error_rates_total[OF assms(1,2)] by blast
  obtain E where r: "conditional_error_rate (true_divide co) E (Classify co sels (map snd ev)) = Inr rate"
    using error_rates_Inr[OF rate] by blast
  have vals: "\<forall>x \<in> set rate. \<exists>q. x = Val q" by (rule conditional_error_rate_all_Val[OF r])
  have ne: "rate \<noteq> []" using len assms(3) by auto
  obtain k where k: "k < length rate" and tm: "torch_min rate = Inr (rate ! k, k)"
    using torch_min_spec[OF ne vals] by blast
  have "evaluate co ev cls sels = Inr (cls ! k, sels ! k)"
    using rate tm k len assms(2) by (simp add: evaluate_def get_row_def)
  then show ?thesis using k len by auto
qed

lemma evaluate_first_minimum:
  assumes "classify_ok co" and "length sels = length cls" and "cls \<noteq> []"
  shows "\<exists>rate k. error_rates co ev cls sels = Inr rate \<and> length rate = length cls
           \<and> k < length cls \<and> evaluate co ev cls sels = Inr (cls ! k, sels ! k)
           \<and> (\<forall>l < length rate. \<not> fless (rate ! l) (rate ! k))
           \<and> (\<forall>l < k. fless (rate ! k) (rate ! l))"
proof -
  obtain rate where rate: "error_rates co ev cls sels = Inr rate"
    and len: "length rate = length cls"
    using error_rates_total[OF assms(1,2)] by blast
  obtain E where r: "conditional_error_rate (true_divide co) E (Classify co sels (map snd ev)) = Inr rate"
    using error_rates_Inr[OF rate] by blast
  have vals: "\<forall>x \<in> set rate. \<exists>q. x = Val q" by (rule conditional_error_rate_all_Val[OF r])
  have ne: "rate \<noteq> []" using len assms(3) by auto
  obtain k where k: "k < length rate" and tm: "torch_min rate = Inr (rate ! k, k)"
    and first: "\<forall>l < k. fless (rate ! k) (rate ! l)"
    and least: "\<forall>l < length rate. \<not> fless (rate ! l) (rate ! k)"
    using torch_min_spec[OF ne vals] by blast
  have "evaluate co ev cls sels = Inr (cls ! k, sels ! k)"
    using rate tm k len assms(2) by (simp add: evaluate_def get_row_def)
  then show ?thesis using rate len k first least by auto
qed

lemma init_Inr:
  assumes "init fl ph d n k lc bs = Inr L"
  shows "0 < d" and "dim_sample L = d" and "length (init_weight L) = nat d"
    and "init_weight L = (replicate (nat d) 0)[0 := 1]"
    and "sample_size_psgd L = k" and "num_iter L = n" and "batch_size L = bs"
    and "lr_beta L = scalar_mul fl lc (torch_sqrt fl (tensor fl (py_div fl 1 (n * d))))"
    and "header L = ph @ '' conditional learner -''"
  using assms by (auto simp: init_def zeros_def split: if_splits)

lemma slice_prefix:
  assumes "0 \<le> k" and "k \<le> int (length xs)"
  shows "slice xs 0 k = take (nat k) xs"
proof -
  have "nat k \<le> length xs" using assms by linarith
  then show ?thesis using assms by (simp add: slice_def slice_bound_def Let_def min_def)
qed

lemma slice_suffix:
  assumes "0 \<le> k" and "k \<le> int (length xs)"
  shows "slice xs k (int (length xs)) = drop (nat k) xs"
proof -
  have "nat k \<le> length xs" using assms by linarith
  then show ?thesis using assms by (simp add: slice_def slice_bound_def Let_def min_def)
qed

lemma fraction_lengths_two:
  assumes "n = 1 \<longrightarrow> 0 \<le> k \<and> k \<le> 1"
  shows "fraction_lengths n [k, int n - k] = Inr [k, int n - k]"
proof (cases "n = 1")
  case True
  then have "0 \<le> k \<and> k \<le> 1" using assms by simp
  then show ?thesis using True by (simp add: fraction_lengths_def)
next
  case False
  then show ?thesis by (simp add: fraction_lengths_def)
qed

lemma fraction_lengths_two_fails:
  assumes "k < 0 \<or> 1 < k"
  shows "fraction_lengths 1 [k, 1 - k] = Inl ValueError"
  using assms by (auto simp: fraction_lengths_def)

lemma random_split_two:
  assumes "length ds = 1 \<longrightarrow> 0 \<le> k \<and> k \<le> 1"
  shows "random_split perm ds [k, int (length ds) - k]
     = Inr [(ds, slice (perm (length ds)) 0 k),
            (ds, slice (perm (length ds)) k (int (length ds)))]"
  by (simp add: random_split_def fraction_lengths_two[OF assms] accumulate_def Let_def)

lemma split_dataset_eq:
  assumes "length ds = 1 \<longrightarrow> 0 \<le> sample_size_psgd L \<and> sample_size_psgd L \<le> 1"
  shows "split_dataset co L i ds
     = Inr ((ds, slice (randperm co i (length ds)) 0 (sample_size_psgd L)),
            (ds, slice (randperm co i (length ds)) (sample_size_psgd L) (int (length ds))))"
  by (simp add: split_dataset_def random_split_two[OF assms])

lemma split_dataset_fails:
  assumes "length ds = 1" and "sample_size_psgd L < 0 \<or> 1 < sample_size_psgd L"
  shows "split_dataset co L i ds = Inl ValueError"
  using fraction_lengths_two_fails[OF assms(2)] assms(1)
  by (simp add: split_dataset_def random_split_def)

lemma split_in_range:
  assumes "0 \<le> k" and "k \<le> int (length ds)"
  shows "length ds = 1 \<longrightarrow> 0 \<le> k \<and> k \<le> 1"
  using assms by auto

lemma train_selectors_total:
  assumes "trainer_ok co D" and "dim_sample L = int D" and "length (init_weight L) = D"
    and "to_dense co c \<noteq> []"
    and "length (TransformedDataset co data (Some c)) = 1
           \<longrightarrow> 0 \<le> sample_size_psgd L \<and> sample_size_psgd L \<le> 1"
  shows "\<exists>train val sels.
           split_dataset co L i (TransformedDataset co data (Some c)) = Inr (train, val)
           \<and> SelectorPerceptron co (header L @ ''>'') (dim_sample L) (i + 1)
                (length (to_dense co c)) (num_iter L) (lr_beta L) (batch_size L)
                train val (init_weight L) = Inr sels
           \<and> train_selectors co L data i c = Inr sels
           \<and> length sels = length (to_dense co c) \<and> list_all (\<lambda>row. length row = D) sels"
proof -
  let ?ds = "TransformedDataset co data (Some c)"
  let ?tr = "(?ds, slice (randperm co i (length ?ds)) 0 (sample_size_psgd L))"
  let ?va = "(?ds, slice (randperm co i (length ?ds)) (sample_size_psgd L) (int (length ?ds)))"
  have sp: "split_dataset co L i ?ds = Inr (?tr, ?va)" by (rule split_dataset_eq[OF assms(5)])
  have n: "0 < length (to_dense co c)" using assms(4) by simp
  obtain sels where s: "SelectorPerceptron co (header L @ ''>'') (int D) (i + 1)
       (length (to_dense co c)) (num_iter L) (lr_beta L) (batch_size L) ?tr ?va (init_weight L)
       = Inr sels"
    and l: "length sels = length (to_dense co c)" and r: "list_all (\<lambda>row. length row = D) sels"
    using assms(1) n assms(3) unfolding trainer_ok_def by blast
  have "train_selectors co L data i c = Inr sels"
    using sp s by (simp add: train_selectors_def Let_def assms(2))
  then show ?thesis using sp s l r assms(2) by auto
qed

lemma cluster_best_Inr:
  assumes "cluster_best co L data ev i c = Inr (bc, bs)"
  shows "\<exists>sels j. train_selectors co L data i c = Inr sels
           \<and> j < length (to_dense co c) \<and> j < length sels
           \<and> bc = to_dense co c ! j \<and> bs = sels ! j"
proof -
  obtain sels where t: "train_selectors co L data i c = Inr sels"
    and e: "evaluate co ev (to_dense co c) sels = Inr (bc, bs)"
    using assms by (auto simp: cluster_best_def split: sum.splits)
  from evaluate_Inr[OF e] t show ?thesis by blast
qed

lemma cluster_best_first_minimum:
  assumes "classify_ok co" and "trainer_ok co D" and "dim_sample L = int D"
    and "length (init_weight L) = D"
    and "to_dense co c \<noteq> []" and "list_all (\<lambda>row. length row = D) (to_dense co c)"
    and "length (TransformedDataset co data (Some c)) = 1
           \<longrightarrow> 0 \<le> sample_size_psgd L \<and> sample_size_psgd L \<le> 1"
  shows "\<exists>train val sels rate j.
           split_dataset co L i (TransformedDataset co data (Some c)) = Inr (train, val)
           \<and> SelectorPerceptron co (header L @ ''>'') (dim_sample L) (i + 1)
                (length (to_dense co c)) (num_iter L) (lr_beta L) (batch_size L)
                train val (init_weight L) = Inr sels
           \<and> error_rates co ev (to_dense co c) sels = Inr rate
           \<and> j < length (to_dense co c)
           \<and> (\<forall>l < length rate. \<not> fless (rate ! l) (rate ! j))
           \<and> (\<forall>l < j. fless (rate ! j) (rate ! l))
           \<and> cluster_best co L data ev i c = Inr (to_dense co c ! j, sels ! j)
           \<and> length (to_dense co c ! j) = D \<and> length (sels ! j) = D"
proof -
  obtain train val sels
    where sp: "split_dataset co L i (TransformedDataset co data (Some c)) = Inr (train, val)"
    and tr: "SelectorPerceptron co (header L @ ''>'') (dim_sample L) (i + 1)
                (length (to_dense co c)) (num_iter L) (lr_beta L) (batch_size L)
                train val (init_weight L) = Inr sels"
    and t: "train_selectors co L data i c = Inr sels"
    and len: "length sels = length (to_dense co c)"
    and rows: "list_all (\<lambda>row. length row = D) sels"
    using train_selectors_total[OF assms(2,3,4,5,7)] by blast
  obtain rate j where r: "error_rates co ev (to_dense co c) sels = Inr rate"
    and j: "j < length (to_dense co c)"
    and e: "evaluate co ev (to_dense co c) sels = Inr (to_dense co c ! j, sels ! j)"
    and least: "\<forall>l < length rate. \<not> fless (rate ! l) (rate ! j)"
    and first: "\<forall>l < j. fless (rate ! j) (rate ! l)"
    using evaluate_first_minimum[OF assms(1) len assms(5)] by blast
  have b: "cluster_best co L data ev i c = Inr (to_dense co c ! j, sels ! j)"
    using t e by (simp add: cluster_best_def)
  have lc: "length (to_dense co c ! j) = D" using assms(6) j by (simp add: list_all_length)
  have ls: "length (sels ! j) = D" using rows j len by (simp add: list_all_length)
  show ?thesis using sp tr r j least first b lc ls by blast
qed

lemma cluster_best_total:
  assumes "classify_ok co" and "trainer_ok co D" and "dim_sample L = int D"
    and "length (init_weight L) = D"
    and "to_dense co c \<noteq> []" and "list_all (\<lambda>row. length row = D) (to_dense co c)"
    and "length (TransformedDataset co data (Some c)) = 1
           \<longrightarrow> 0 \<le> sample_size_psgd L \<and> sample_size_psgd L \<le> 1"
  shows "\<exists>bc bs. cluster_best co L data ev i c = Inr (bc, bs) \<and> length bc = D \<and> length bs = D"
  using cluster_best_first_minimum[OF assms] by blast

text \<open>
  Claim C10. For positive \<open>num_iter\<close> and \<open>dim_sample\<close> the constructor returns a
  learner, and its step size is \<open>lr_beta = lr_coeff \<cdot> sqrt (1 / (num_iter \<cdot> dim_sample))\<close>,
  computed in this order by the floating-point operations of Python and of the tensor
  library: the division of 1 by the product of the two integers, the conversion to a
  tensor, the square root and the product with \<open>lr_coeff\<close>.
\<close>

theorem lr_beta_formula:
  assumes "0 < n" and "0 < d"
  shows "\<exists>L :: ('a::{zero,one}, 'f) learner.
           init fl prev_header d n k lr_coeff bs = Inr L
           \<and> lr_beta L = scalar_mul fl lr_coeff (torch_sqrt fl (tensor fl (py_div fl 1 (n * d))))"
  using assms by (simp add: init_def zeros_def)

theorem lr_beta_formula_witness:
  "(0::int) < 2 \<and> (0::int) < 2
   \<and> (\<exists>L :: (int, real) learner.
        init demo_float ''demo'' 2 2 3 1 32 = Inr L
        \<and> lr_beta L = scalar_mul demo_float 1
            (torch_sqrt demo_float (tensor demo_float (py_div demo_float 1 (2 * 2)))))
   \<and> scalar_mul demo_float 1
            (torch_sqrt demo_float (tensor demo_float (py_div demo_float 1 (2 * 2))))
       = 1 * sqrt (1 / (2 * 2))"
proof -
  have h1: "(0::int) < 2" by simp
  have e: "scalar_mul demo_float 1
            (torch_sqrt demo_float (tensor demo_float (py_div demo_float 1 (2 * 2))))
       = 1 * sqrt (1 / (2 * 2))"
    by (simp add: demo_float_def)
  show ?thesis
    using h1 e lr_beta_formula[OF h1 h1, where fl = demo_float and prev_header = "''demo''"
        and k = 3 and lr_coeff = 1 and bs = 32 and 'a = int]
    by blast
qed

subsection \<open>The candidate matrices\<close>

lemma set_row_Inr:
  assumes "set_row t i v = Inr t'"
  shows "i < length t" and "length t' = length t"
    and "\<And>j. j \<noteq> i \<Longrightarrow> t' ! j = t ! j"
    and "length (t' ! i) = length (t ! i)"
    and "t' ! i = expand_as v (length (t ! i))"
  using assms by (auto simp: set_row_def expand_as_def split: if_splits)

lemma expand_as_same: "length v = n \<Longrightarrow> expand_as v n = v"
  by (simp add: expand_as_def)

lemma set_row_total:
  assumes "i < length t" and "length v = length (t ! i)"
  shows "set_row t i v = Inr (t[i := v])"
  using assms by (simp add: set_row_def expand_as_def)

lemma cluster_step_Inr:
  assumes "cluster_step co L data ev i c cands = Inr cands'"
  shows "\<exists>bc bs. cluster_best co L data ev i c = Inr (bc, bs)
           \<and> set_row (fst cands) i bc = Inr (fst cands')
           \<and> set_row (snd cands) i bs = Inr (snd cands')"
  using assms by (auto simp: cluster_step_def split: sum.splits prod.splits)

lemma cluster_step_frame:
  assumes "cluster_step co L data ev i c cands = Inr cands'"
  shows "i < length (fst cands) \<and> i < length (snd cands)
       \<and> length (fst cands') = length (fst cands) \<and> length (snd cands') = length (snd cands)
       \<and> (\<forall>j. j \<noteq> i \<longrightarrow> fst cands' ! j = fst cands ! j \<and> snd cands' ! j = snd cands ! j)
       \<and> length (fst cands' ! i) = length (fst cands ! i)
       \<and> length (snd cands' ! i) = length (snd cands ! i)
       \<and> (\<exists>bc bs. cluster_best co L data ev i c = Inr (bc, bs)
            \<and> fst cands' ! i = expand_as bc (length (fst cands ! i))
            \<and> snd cands' ! i = expand_as bs (length (snd cands ! i)))"
proof -
  obtain bc bs where b: "cluster_best co L data ev i c = Inr (bc, bs)"
    and c: "set_row (fst cands) i bc = Inr (fst cands')"
    and s: "set_row (snd cands) i bs = Inr (snd cands')"
    using cluster_step_Inr[OF assms] by blast
  show ?thesis
    using b set_row_Inr[OF c] set_row_Inr[OF s] by auto
qed

lemma cluster_loop_rows:
  assumes "cluster_loop co L data ev i cls cands = Inr cands'"
  shows "length (fst cands') = length (fst cands) \<and> length (snd cands') = length (snd cands)
       \<and> (\<forall>j. j < i \<or> i + length cls \<le> j \<longrightarrow>
              fst cands' ! j = fst cands ! j \<and> snd cands' ! j = snd cands ! j)
       \<and> (\<forall>m < length cls. i + m < length (fst cands) \<and> i + m < length (snd cands)
            \<and> length (fst cands' ! (i + m)) = length (fst cands ! (i + m))
            \<and> length (snd cands' ! (i + m)) = length (snd cands ! (i + m))
            \<and> (\<exists>bc bs. cluster_best co L data ev (i + m) (cls ! m) = Inr (bc, bs)
                 \<and> fst cands' ! (i + m) = expand_as bc (length (fst cands ! (i + m)))
                 \<and> snd cands' ! (i + m) = expand_as bs (length (snd cands ! (i + m)))))"
  using assms
proof (induction cls arbitrary: i cands)
  case Nil
  then show ?case by simp
next
  case (Cons c rest)
  obtain cands1 where st: "cluster_step co L data ev i c cands = Inr cands1"
    and lp: "cluster_loop co L data ev (Suc i) rest cands1 = Inr cands'"
    using Cons.prems by (auto split: sum.splits)
  note F = cluster_step_frame[OF st]
  note R = Cons.IH[OF lp]
  have len: "length (fst cands') = length (fst cands) \<and> length (snd cands') = length (snd cands)"
    using F R by simp
  have out: "\<forall>j. j < i \<or> i + length (c # rest) \<le> j \<longrightarrow>
              fst cands' ! j = fst cands ! j \<and> snd cands' ! j = snd cands ! j"
  proof (intro allI impI)
    fix j assume j: "j < i \<or> i + length (c # rest) \<le> j"
    then have a: "j < Suc i \<or> Suc i + length rest \<le> j" and b: "j \<noteq> i" by auto
    have 1: "fst cands' ! j = fst cands1 ! j \<and> snd cands' ! j = snd cands1 ! j"
      using R a by blast
    have 2: "fst cands1 ! j = fst cands ! j \<and> snd cands1 ! j = snd cands ! j"
      using F b by blast
    show "fst cands' ! j = fst cands ! j \<and> snd cands' ! j = snd cands ! j"
      using 1 2 by simp
  qed
  have rows: "\<forall>m < length (c # rest). i + m < length (fst cands) \<and> i + m < length (snd cands)
            \<and> length (fst cands' ! (i + m)) = length (fst cands ! (i + m))
            \<and> length (snd cands' ! (i + m)) = length (snd cands ! (i + m))
            \<and> (\<exists>bc bs. cluster_best co L data ev (i + m) ((c # rest) ! m) = Inr (bc, bs)
                 \<and> fst cands' ! (i + m) = expand_as bc (length (fst cands ! (i + m)))
                 \<and> snd cands' ! (i + m) = expand_as bs (length (snd cands ! (i + m))))"
  proof (intro allI impI)
    fix m assume m: "m < length (c # rest)"
    show "i + m < length (fst cands) \<and> i + m < length (snd cands)
            \<and> length (fst cands' ! (i + m)) = length (fst cands ! (i + m))
            \<and> length (snd cands' ! (i + m)) = length (snd cands ! (i + m))
            \<and> (\<exists>bc bs. cluster_best co L data ev (i + m) ((c # rest) ! m) = Inr (bc, bs)
                 \<and> fst cands' ! (i + m) = expand_as bc (length (fst cands ! (i + m)))
                 \<and> snd cands' ! (i + m) = expand_as bs (length (snd cands ! (i + m))))"
    proof (cases m)
      case 0
      have same: "fst cands' ! i = fst cands1 ! i \<and> snd cands' ! i = snd cands1 ! i"
        using R by simp
      show ?thesis using F same by (simp add: 0)
    next
      case (Suc m')
      then have m': "m' < length rest" using m by simp
      have ne: "Suc i + m' \<noteq> i" by simp
      have old: "fst cands1 ! (Suc i + m') = fst cands ! (Suc i + m')
               \<and> snd cands1 ! (Suc i + m') = snd cands ! (Suc i + m')"
        using F ne by blast
      from R m' have "Suc i + m' < length (fst cands1) \<and> Suc i + m' < length (snd cands1)
            \<and> length (fst cands' ! (Suc i + m')) = length (fst cands1 ! (Suc i + m'))
            \<and> length (snd cands' ! (Suc i + m')) = length (snd cands1 ! (Suc i + m'))
            \<and> (\<exists>bc bs. cluster_best co L data ev (Suc i + m') (rest ! m') = Inr (bc, bs)
                 \<and> fst cands' ! (Suc i + m') = expand_as bc (length (fst cands1 ! (Suc i + m')))
                 \<and> snd cands' ! (Suc i + m') = expand_as bs (length (snd cands1 ! (Suc i + m'))))"
        by blast
      then show ?thesis using old F by (simp add: Suc)
    qed
  qed
  from len out rows show ?case by blast
qed

lemma cluster_step_total:
  assumes "classify_ok co" and "trainer_ok co D" and "dim_sample L = int D"
    and "length (init_weight L) = D"
    and "to_dense co c \<noteq> []" and "list_all (\<lambda>row. length row = D) (to_dense co c)"
    and "length (TransformedDataset co data (Some c)) = 1
           \<longrightarrow> 0 \<le> sample_size_psgd L \<and> sample_size_psgd L \<le> 1"
    and "i < length (fst cands)" and "i < length (snd cands)"
    and "length (fst cands ! i) = D" and "length (snd cands ! i) = D"
  shows "\<exists>cands'. cluster_step co L data ev i c cands = Inr cands'"
proof -
  obtain bc bs where b: "cluster_best co L data ev i c = Inr (bc, bs)"
    and lc: "length bc = D" and ls: "length bs = D"
    using cluster_best_total[OF assms(1-7)] by blast
  have 1: "set_row (fst cands) i bc = Inr ((fst cands)[i := bc])"
    using set_row_total[OF assms(8)] lc assms(10) by simp
  have 2: "set_row (snd cands) i bs = Inr ((snd cands)[i := bs])"
    using set_row_total[OF assms(9)] ls assms(11) by simp
  show ?thesis using b 1 2 by (simp add: cluster_step_def)
qed

lemma cluster_loop_total:
  assumes "classify_ok co" and "trainer_ok co D" and "dim_sample L = int D"
    and "length (init_weight L) = D"
    and "clusters_ok co D cls"
    and "list_all (\<lambda>c. length (TransformedDataset co data (Some c)) = 1
           \<longrightarrow> 0 \<le> sample_size_psgd L \<and> sample_size_psgd L \<le> 1) cls"
    and "i + length cls \<le> length (fst cands)" and "length (snd cands) = length (fst cands)"
    and "\<forall>j < length (fst cands). length (fst cands ! j) = D \<and> length (snd cands ! j) = D"
  shows "\<exists>cands'. cluster_loop co L data ev i cls cands = Inr cands'"
  using assms(5-9)
proof (induction cls arbitrary: i cands)
  case Nil
  then show ?case by simp
next
  case (Cons c rest)
  have c: "to_dense co c \<noteq> []" "list_all (\<lambda>row. length row = D) (to_dense co c)"
    using Cons.prems(1) by (simp_all add: clusters_ok_def)
  have sp: "length (TransformedDataset co data (Some c)) = 1
           \<longrightarrow> 0 \<le> sample_size_psgd L \<and> sample_size_psgd L \<le> 1"
    using Cons.prems(2) by simp
  have rest: "clusters_ok co D rest" using Cons.prems(1) by (simp add: clusters_ok_def)
  have rest2: "list_all (\<lambda>c. length (TransformedDataset co data (Some c)) = 1
           \<longrightarrow> 0 \<le> sample_size_psgd L \<and> sample_size_psgd L \<le> 1) rest"
    using Cons.prems(2) by simp
  have i: "i < length (fst cands)" "i < length (snd cands)"
    using Cons.prems(3,4) by simp_all
  have li: "length (fst cands ! i) = D" "length (snd cands ! i) = D"
    using Cons.prems(5) i by simp_all
  obtain cands1 where st: "cluster_step co L data ev i c cands = Inr cands1"
    using cluster_step_total[OF assms(1-4) c sp i li] by blast
  note F = cluster_step_frame[OF st]
  have a: "Suc i + length rest \<le> length (fst cands1)" using F Cons.prems(3) by simp
  have b: "length (snd cands1) = length (fst cands1)" using F Cons.prems(4) by simp
  have d: "\<forall>j < length (fst cands1). length (fst cands1 ! j) = D \<and> length (snd cands1 ! j) = D"
  proof (intro allI impI)
    fix j assume j: "j < length (fst cands1)"
    then have j': "j < length (fst cands)" using F by simp
    show "length (fst cands1 ! j) = D \<and> length (snd cands1 ! j) = D"
    proof (cases "j = i")
      case True
      then show ?thesis using F li by simp
    next
      case False
      then have "fst cands1 ! j = fst cands ! j \<and> snd cands1 ! j = snd cands ! j"
        using F by blast
      then show ?thesis using Cons.prems(5) j' by simp
    qed
  qed
  obtain cands' where "cluster_loop co L data ev (Suc i) rest cands1 = Inr cands'"
    using Cons.IH[OF rest rest2 a b d] by blast
  then show ?case using st by simp
qed

lemma zeros2_Inr: "0 \<le> d \<Longrightarrow> zeros2 n d = Inr (replicate n (replicate (nat d) 0))"
  by (simp add: zeros2_def)

lemma forward_unfold:
  assumes "0 \<le> dim_sample L"
  shows "forward co L data clusters =
     (case cluster_loop co L data (TransformedDataset co data None) 0 clusters
             (replicate (length clusters) (replicate (nat (dim_sample L)) 0),
              replicate (length clusters) (replicate (nat (dim_sample L)) 0)) of
        Inl e \<Rightarrow> Inl e
      | Inr cands \<Rightarrow> evaluate co (TransformedDataset co data None) (fst cands) (snd cands))"
  using assms by (simp add: forward_def Let_def zeros2_Inr)

text \<open>
  Claim C6. An iteration of the loop of \<^verbatim>\<open>forward\<close> with index \<open>i\<close> that completes
  has written row \<open>i\<close> of \<open>candidate_classifiers\<close> and row \<open>i\<close> of
  \<open>candidate_selectors\<close> with the best pair of its cluster, and has left every other
  row of both matrices as it was. The loop started at index \<open>i0\<close> therefore leaves
  the rows before \<open>i0\<close> and after its last cluster unchanged, and the row \<open>i0 + m\<close>
  holds the best pair of its \<open>m\<close>-th cluster: every row is written once, by the
  iteration of its own index.
\<close>

theorem candidate_rows_written_once:
  "(cluster_step co L data ev i classifiers cands = Inr cands' \<longrightarrow>
      i < length (fst cands) \<and> i < length (snd cands)
      \<and> (\<exists>c s. cluster_best co L data ev i classifiers = Inr (c, s)
            \<and> fst cands' = (fst cands)[i := expand_as c (length (fst cands ! i))]
            \<and> snd cands' = (snd cands)[i := expand_as s (length (snd cands ! i))])
      \<and> (\<forall>j. j \<noteq> i \<longrightarrow> fst cands' ! j = fst cands ! j \<and> snd cands' ! j = snd cands ! j))
   \<and> (cluster_loop co L data ev i0 clusters cands0 = Inr cands1 \<longrightarrow>
      length (fst cands1) = length (fst cands0) \<and> length (snd cands1) = length (snd cands0)
      \<and> (\<forall>j. j < i0 \<or> i0 + length clusters \<le> j \<longrightarrow>
             fst cands1 ! j = fst cands0 ! j \<and> snd cands1 ! j = snd cands0 ! j)
      \<and> (\<forall>m < length clusters. i0 + m < length (fst cands0) \<and> i0 + m < length (snd cands0)
             \<and> (\<exists>c s. cluster_best co L data ev (i0 + m) (clusters ! m) = Inr (c, s)
                  \<and> fst cands1 ! (i0 + m) = expand_as c (length (fst cands0 ! (i0 + m)))
                  \<and> snd cands1 ! (i0 + m) = expand_as s (length (snd cands0 ! (i0 + m))))))"
proof (intro conjI impI)
  assume st: "cluster_step co L data ev i classifiers cands = Inr cands'"
  obtain bc bs where b: "cluster_best co L data ev i classifiers = Inr (bc, bs)"
    and c: "set_row (fst cands) i bc = Inr (fst cands')"
    and s: "set_row (snd cands) i bs = Inr (snd cands')"
    using cluster_step_Inr[OF st] by blast
  show "i < length (fst cands)" by (rule set_row_Inr(1)[OF c])
  show "i < length (snd cands)" by (rule set_row_Inr(1)[OF s])
  have "fst cands' = (fst cands)[i := expand_as bc (length (fst cands ! i))]"
    using c by (auto simp: set_row_def split: if_splits)
  moreover have "snd cands' = (snd cands)[i := expand_as bs (length (snd cands ! i))]"
    using s by (auto simp: set_row_def split: if_splits)
  ultimately show "\<exists>c s. cluster_best co L data ev i classifiers = Inr (c, s)
            \<and> fst cands' = (fst cands)[i := expand_as c (length (fst cands ! i))]
            \<and> snd cands' = (snd cands)[i := expand_as s (length (snd cands ! i))]"
    using b by blast
  show "\<forall>j. j \<noteq> i \<longrightarrow> fst cands' ! j = fst cands ! j \<and> snd cands' ! j = snd cands ! j"
    using set_row_Inr(3)[OF c] set_row_Inr(3)[OF s] by simp
next
  assume lp: "cluster_loop co L data ev i0 clusters cands0 = Inr cands1"
  note R = cluster_loop_rows[OF lp]
  show "length (fst cands1) = length (fst cands0)" using R by simp
  show "length (snd cands1) = length (snd cands0)" using R by simp
  show "\<forall>j. j < i0 \<or> i0 + length clusters \<le> j \<longrightarrow>
             fst cands1 ! j = fst cands0 ! j \<and> snd cands1 ! j = snd cands0 ! j"
    using R by blast
  show "\<forall>m < length clusters. i0 + m < length (fst cands0) \<and> i0 + m < length (snd cands0)
             \<and> (\<exists>c s. cluster_best co L data ev (i0 + m) (clusters ! m) = Inr (c, s)
                  \<and> fst cands1 ! (i0 + m) = expand_as c (length (fst cands0 ! (i0 + m)))
                  \<and> snd cands1 ! (i0 + m) = expand_as s (length (snd cands0 ! (i0 + m))))"
    using R by blast
qed

theorem candidate_rows_written_once_witness:
  "cluster_step demo_co demo_learner demo_data demo_data 0 [[0, 1], [1, 0]]
       ([[0, 0], [0, 0]], [[0, 0], [0, 0]])
     = Inr ([[0, 1], [0, 0]], [[1, 0], [0, 0]])
   \<and> cluster_loop demo_co demo_learner demo_data demo_data 0 [[[0, 1], [1, 0]], [[1, 1]]]
       ([[0, 0], [0, 0]], [[0, 0], [0, 0]])
     = Inr ([[0, 1], [1, 1]], [[1, 0], [1, 0]])
   \<and> [[0, 1], [0, 0 :: int]] ! 1 = [[0, 0], [0, 0]] ! 1
   \<and> [[1, 0], [0, 0 :: int]] ! 1 = [[0, 0], [0, 0]] ! 1
   \<and> (\<exists>c s. cluster_best demo_co demo_learner demo_data demo_data (0 + 1)
                  ([[[0, 1], [1, 0]], [[1, 1]]] ! 1) = Inr (c, s)
            \<and> [[0, 1], [1, 1]] ! (0 + 1) = expand_as c (length ([[0, 0], [0, 0 :: int]] ! (0 + 1)))
            \<and> [[1, 0], [1, 0]] ! (0 + 1) = expand_as s (length ([[0, 0], [0, 0 :: int]] ! (0 + 1))))"
proof -
  have a1: "cluster_step demo_co demo_learner demo_data demo_data 0 [[0, 1], [1, 0]]
       ([[0, 0], [0, 0]], [[0, 0], [0, 0]])
     = Inr ([[0, 1], [0, 0]], [[1, 0], [0, 0]])"
    by code_simp
  have a2: "cluster_loop demo_co demo_learner demo_data demo_data 0 [[[0, 1], [1, 0]], [[1, 1]]]
       ([[0, 0], [0, 0]], [[0, 0], [0, 0]])
     = Inr ([[0, 1], [1, 1]], [[1, 0], [1, 0]])"
    by code_simp
  note T = candidate_rows_written_once[of demo_co demo_learner demo_data demo_data 0
      "[[0, 1], [1, 0]]" "([[0, 0], [0, 0]], [[0, 0], [0, 0]])"
      "([[0, 1], [0, 0]], [[1, 0], [0, 0]])" 0 "[[[0, 1], [1, 0]], [[1, 1]]]"
      "([[0, 0], [0, 0]], [[0, 0], [0, 0]])" "([[0, 1], [1, 1]], [[1, 0], [1, 0]])"]
  have s: "\<forall>j. j \<noteq> 0 \<longrightarrow> [[0, 1], [0, 0 :: int]] ! j = [[0, 0], [0, 0]] ! j
                     \<and> [[1, 0], [0, 0 :: int]] ! j = [[0, 0], [0, 0]] ! j"
    using T a1 by simp
  have l: "\<forall>m < length [[[0, 1], [1, 0]], [[1, 1 :: int]]].
         \<exists>c s. cluster_best demo_co demo_learner demo_data demo_data (0 + m)
                  ([[[0, 1], [1, 0]], [[1, 1]]] ! m) = Inr (c, s)
            \<and> [[0, 1], [1, 1]] ! (0 + m) = expand_as c (length ([[0, 0], [0, 0 :: int]] ! (0 + m)))
            \<and> [[1, 0], [1, 0]] ! (0 + m) = expand_as s (length ([[0, 0], [0, 0 :: int]] ! (0 + m)))"
    using T a2 by (simp del: nth_Cons_numeral)
  have m1: "(1::nat) < length [[[0, 1], [1, 0]], [[1, 1 :: int]]]" by simp
  have n1: "(1::nat) \<noteq> 0" by simp
  show ?thesis using a1 a2 s l m1 n1 by blast
qed

subsection \<open>The split and the seed of the training\<close>

text \<open>
  Claim C8. For a view of \<open>L\<close> samples and a training-sample count
  \<open>sample_size_psgd\<close> between 0 and \<open>L\<close>, the split of \<^verbatim>\<open>forward\<close> succeeds: the
  training split has exactly \<open>sample_size_psgd\<close> samples, the validation split the
  remaining \<open>L - sample_size_psgd\<close>, both are views of the same dataset and together
  they hold the drawn permutation. When \<open>sample_size_psgd = L\<close> the validation split
  is empty and no error is raised.
\<close>

theorem split_dataset_sizes:
  assumes "0 \<le> sample_size_psgd L" and "sample_size_psgd L \<le> int (length dataset)"
    and "length (randperm co i (length dataset)) = length dataset"
  shows "\<exists>train val. split_dataset co L i dataset = Inr (train, val)
           \<and> fst train = dataset \<and> fst val = dataset
           \<and> int (subset_len train) = sample_size_psgd L
           \<and> int (subset_len val) = int (length dataset) - sample_size_psgd L
           \<and> snd train @ snd val = randperm co i (length dataset)
           \<and> (sample_size_psgd L = int (length dataset) \<longrightarrow> snd val = [])"
proof -
  let ?p = "randperm co i (length dataset)" and ?k = "sample_size_psgd L"
  have k: "?k \<le> int (length ?p)" using assms(2,3) by simp
  have tr: "slice ?p 0 ?k = take (nat ?k) ?p" by (rule slice_prefix[OF assms(1) k])
  have va: "slice ?p ?k (int (length dataset)) = drop (nat ?k) ?p"
    using slice_suffix[OF assms(1) k] assms(3) by simp
  have eq: "split_dataset co L i dataset
      = Inr ((dataset, take (nat ?k) ?p), (dataset, drop (nat ?k) ?p))"
    by (simp add: split_dataset_eq[OF split_in_range[OF assms(1,2)]] tr va)
  have "nat ?k \<le> length ?p" using assms by linarith
  then show ?thesis using eq assms by (simp add: subset_len_def)
qed

theorem split_dataset_sizes_witness:
  "0 \<le> sample_size_psgd (demo_learner\<lparr>sample_size_psgd := 4\<rparr>)
   \<and> sample_size_psgd (demo_learner\<lparr>sample_size_psgd := 4\<rparr>) \<le> int (length demo_data)
   \<and> length (randperm demo_co 0 (length demo_data)) = length demo_data
   \<and> (\<exists>train val.
        split_dataset demo_co (demo_learner\<lparr>sample_size_psgd := 4\<rparr>) 0 demo_data = Inr (train, val)
        \<and> int (subset_len train) = 4 \<and> int (subset_len val) = int (length demo_data) - 4
        \<and> snd val = [])"
proof -
  let ?L = "demo_learner\<lparr>sample_size_psgd := 4\<rparr>"
  have h1: "0 \<le> sample_size_psgd ?L" by simp
  have h2: "sample_size_psgd ?L \<le> int (length demo_data)" by (simp add: demo_data_def)
  have h3: "length (randperm demo_co 0 (length demo_data)) = length demo_data"
    by (simp add: demo_co_def)
  have e: "sample_size_psgd ?L = int (length demo_data)" by (simp add: demo_data_def)
  show ?thesis
    using h1 h2 h3 e split_dataset_sizes[OF h1 h2 h3] by auto
qed

lemma evaluate_trainer_irrelevant:
  "evaluate (co\<lparr>SelectorPerceptron := T\<rparr>) ev cls sels = evaluate co ev cls sels"
  by (simp add: evaluate_def error_rates_def cong: sum.case_cong)

lemma split_dataset_trainer_irrelevant:
  "split_dataset (co\<lparr>SelectorPerceptron := T\<rparr>) L i ds = split_dataset co L i ds"
  by (simp add: split_dataset_def)

lemma after_training_same:
  assumes "data_device \<noteq> Cpu \<or> w = init_weight L"
  shows "after_training data_device L w = L"
  using assms by (auto simp: after_training_def)

lemma train_selectors_inplace_pure:
  assumes "data_device \<noteq> Cpu
     \<or> (\<forall>h dd cid cs it lr b tr va w sels w'.
           T h dd cid cs it lr b tr va w = Inr (sels, w') \<longrightarrow> w' = w)"
  shows "train_selectors_inplace co T data_device L data i c
       = (case train_selectors (co\<lparr>SelectorPerceptron := trainer_result T\<rparr>) L data i c of
            Inl e \<Rightarrow> Inl e | Inr sels \<Rightarrow> Inr (sels, L))"
proof (cases "split_dataset co L i (TransformedDataset co data (Some c))")
  case (Inl e)
  then show ?thesis
    by (simp add: train_selectors_inplace_def train_selectors_def split_dataset_trainer_irrelevant)
next
  case (Inr sp)
  obtain tr va where sp: "sp = (tr, va)" by (cases sp)
  let ?r = "T (header L @ ''>'') (dim_sample L) (i + 1) (length (to_dense co c)) (num_iter L)
      (lr_beta L) (batch_size L) tr va (init_weight L)"
  show ?thesis
  proof (cases ?r)
    case (Inl e)
    then show ?thesis
      using Inr sp
      by (simp add: train_selectors_inplace_def train_selectors_def trainer_result_def
          split_dataset_trainer_irrelevant)
  next
    case r: (Inr res)
    obtain sels w' where res: "res = (sels, w')" by (cases res)
    have "data_device \<noteq> Cpu \<or> w' = init_weight L"
      using assms r res by blast
    then have "after_training data_device L w' = L" by (rule after_training_same)
    then show ?thesis
      using Inr sp r res
      by (simp add: train_selectors_inplace_def train_selectors_def trainer_result_def
          split_dataset_trainer_irrelevant)
  qed
qed

lemma cluster_step_inplace_pure:
  assumes "data_device \<noteq> Cpu
     \<or> (\<forall>h dd cid cs it lr b tr va w sels w'.
           T h dd cid cs it lr b tr va w = Inr (sels, w') \<longrightarrow> w' = w)"
  shows "cluster_step_inplace co T data_device data ev i c (cands, L)
       = (case cluster_step (co\<lparr>SelectorPerceptron := trainer_result T\<rparr>) L data ev i c cands of
            Inl e \<Rightarrow> Inl e | Inr cands' \<Rightarrow> Inr (cands', L))"
  unfolding cluster_step_inplace_def cluster_step_def cluster_best_def
    train_selectors_inplace_pure[OF assms] evaluate_trainer_irrelevant
  by (simp split: sum.splits prod.splits)

lemma cluster_loop_inplace_pure:
  assumes "data_device \<noteq> Cpu
     \<or> (\<forall>h dd cid cs it lr b tr va w sels w'.
           T h dd cid cs it lr b tr va w = Inr (sels, w') \<longrightarrow> w' = w)"
  shows "cluster_loop_inplace co T data_device data ev i cls (cands, L)
       = (case cluster_loop (co\<lparr>SelectorPerceptron := trainer_result T\<rparr>) L data ev i cls cands of
            Inl e \<Rightarrow> Inl e | Inr cands' \<Rightarrow> Inr (cands', L))"
proof (induction cls arbitrary: i cands)
  case Nil
  then show ?case by simp
next
  case (Cons c rest)
  show ?case
    by (simp add: cluster_step_inplace_pure[OF assms] Cons.IH split: sum.splits)
qed

lemma training_seeds_pure:
  assumes "data_device \<noteq> Cpu
     \<or> (\<forall>h dd cid cs it lr b tr va w sels w'.
           T h dd cid cs it lr b tr va w = Inr (sels, w') \<longrightarrow> w' = w)"
  shows "\<forall>w \<in> set (training_seeds co T data_device data ev i cls (cands, L)). w = init_weight L"
proof (induction cls arbitrary: i cands)
  case Nil
  then show ?case by simp
next
  case (Cons c rest)
  show ?case
    by (auto simp: cluster_step_inplace_pure[OF assms] Cons.IH split: sum.splits)
qed

lemma forward_inplace_pure:
  assumes "data_device \<noteq> Cpu
     \<or> (\<forall>h dd cid cs it lr b tr va w sels w'.
           T h dd cid cs it lr b tr va w = Inr (sels, w') \<longrightarrow> w' = w)"
  shows "forward_inplace co T data_device L data clusters
       = (case forward (co\<lparr>SelectorPerceptron := trainer_result T\<rparr>) L data clusters of
            Inl e \<Rightarrow> Inl e | Inr pair \<Rightarrow> Inr (pair, L))"
  unfolding forward_inplace_def forward_def Let_def
    cluster_loop_inplace_pure[OF assms] evaluate_trainer_irrelevant
  by (simp split: sum.splits)

text \<open>
  Claim C7, as the code has it. The initial weight of a constructed learner is the
  one-hot vector of dimension \<open>dim_sample\<close>: 1 at index 0 and 0 elsewhere.
  \<^verbatim>\<open>forward\<close> never writes it, and hands it to every training run: as a copy when
  the data is on another device than the CPU, as the tensor of the learner itself
  otherwise. When the data is on another device, or the trainer leaves the initial
  weight it is passed as it was, every training run of \<^verbatim>\<open>forward\<close> starts from the
  one-hot seed, the learner is unchanged after the call, and \<^verbatim>\<open>forward\<close> returns
  what it returns with the trainer as a function.
\<close>

theorem init_weight_seed_shared:
  assumes "init fl prev_header d n k lr_coeff bs = Inr (L :: ('a::{zero,one}, 'f) learner)"
  shows "0 < d \<and> length (init_weight L) = nat d \<and> init_weight L ! 0 = 1
       \<and> (\<forall>j. 0 < j \<and> j < nat d \<longrightarrow> init_weight L ! j = 0)
       \<and> (\<forall>(co :: ('d, 'c, 'x, 'a, 'f) collaborators) T data_device data ev i clusters cands.
             data_device \<noteq> Cpu
             \<or> (\<forall>h dd cid cs it lr b tr va w sels w'.
                   T h dd cid cs it lr b tr va w = Inr (sels, w') \<longrightarrow> w' = w)
             \<longrightarrow> (\<forall>w \<in> set (training_seeds co T data_device data ev i clusters (cands, L)).
                     w = (replicate (nat d) 0)[0 := 1])
               \<and> forward_inplace co T data_device L data clusters
                   = (case forward (co\<lparr>SelectorPerceptron := trainer_result T\<rparr>) L data clusters of
                        Inl e \<Rightarrow> Inl e | Inr pair \<Rightarrow> Inr (pair, L)))"
proof (intro conjI allI impI)
  note I = init_Inr[OF assms]
  show "0 < d" by (rule I(1))
  show "length (init_weight L) = nat d" by (rule I(3))
  show "init_weight L ! 0 = 1" using I(1) by (simp add: I(4))
  show "init_weight L ! j = 0" if "0 < j \<and> j < nat d" for j
    using that by (simp add: I(4))
  show "\<forall>w \<in> set (training_seeds co T data_device data ev i clusters (cands, L)).
          w = (replicate (nat d) 0)[0 := 1]"
    if "data_device \<noteq> Cpu
        \<or> (\<forall>h dd cid cs it lr b tr va w sels w'.
              T h dd cid cs it lr b tr va w = Inr (sels, w') \<longrightarrow> w' = w)"
    for co :: "('d, 'c, 'x, 'a, 'f) collaborators" and T data_device data ev i clusters cands
    using training_seeds_pure[OF that, of co data ev i clusters cands L] by (simp add: I(4))
  show "forward_inplace co T data_device L data clusters
          = (case forward (co\<lparr>SelectorPerceptron := trainer_result T\<rparr>) L data clusters of
               Inl e \<Rightarrow> Inl e | Inr pair \<Rightarrow> Inr (pair, L))"
    if "data_device \<noteq> Cpu
        \<or> (\<forall>h dd cid cs it lr b tr va w sels w'.
              T h dd cid cs it lr b tr va w = Inr (sels, w') \<longrightarrow> w' = w)"
    for co :: "('d, 'c, 'x, 'a, 'f) collaborators" and T data_device data clusters
    by (rule forward_inplace_pure[OF that])
qed

theorem init_weight_seed_shared_witness:
  "init demo_float ''demo'' 2 2 3 1 32 = Inr demo_learner
   \<and> Cuda 0 \<noteq> Cpu
   \<and> length (init_weight demo_learner) = nat 2 \<and> init_weight demo_learner ! 0 = 1
   \<and> training_seeds demo_co demo_inplace_trainer (Cuda 0) demo_data demo_data 0
        [[[0, 1], [1, 0]], [[1, 1]]] (([[0, 0], [0, 0]], [[0, 0], [0, 0]]), demo_learner)
       = [[1, 0], [1, 0]]
   \<and> forward_inplace demo_co demo_inplace_trainer (Cuda 0) demo_learner demo_data
        [[[0, 1], [1, 0]], [[1, 1]]]
       = (case forward (demo_co\<lparr>SelectorPerceptron := trainer_result demo_inplace_trainer\<rparr>)
                 demo_learner demo_data [[[0, 1], [1, 0]], [[1, 1]]] of
            Inl e \<Rightarrow> Inl e | Inr pair \<Rightarrow> Inr (pair, demo_learner))
   \<and> forward_inplace demo_co demo_inplace_trainer (Cuda 0) demo_learner demo_data
        [[[0, 1], [1, 0]], [[1, 1]]]
       = Inr (([0, 1], [1, 0]), demo_learner)"
proof -
  have h: "init demo_float ''demo'' 2 2 3 1 32 = Inr demo_learner"
    by (simp add: init_def zeros_def demo_learner_def demo_float_def numeral_2_eq_2
        real_sqrt_divide)
  note T = init_weight_seed_shared[OF h]
  have t1: "length (init_weight demo_learner) = nat 2" using T by (elim conjE)
  have t2: "init_weight demo_learner ! 0 = 1" using T by (elim conjE)
  have t3: "\<forall>(co :: ((bool \<times> int list) list, int list list, int list, int, real) collaborators)
        T data_device data ev i clusters cands.
             data_device \<noteq> Cpu
             \<or> (\<forall>h dd cid cs it lr b tr va w sels w'.
                   T h dd cid cs it lr b tr va w = Inr (sels, w') \<longrightarrow> w' = w)
             \<longrightarrow> (\<forall>w \<in> set (training_seeds co T data_device data ev i clusters (cands, demo_learner)).
                     w = (replicate (nat 2) 0)[0 := 1])
               \<and> forward_inplace co T data_device demo_learner data clusters
                   = (case forward (co\<lparr>SelectorPerceptron := trainer_result T\<rparr>) demo_learner
                             data clusters of
                        Inl e \<Rightarrow> Inl e | Inr pair \<Rightarrow> Inr (pair, demo_learner))"
    using T by (elim conjE)
  have dev: "Cuda 0 \<noteq> Cpu" by simp
  have f: "forward_inplace demo_co demo_inplace_trainer (Cuda 0) demo_learner demo_data
        [[[0, 1], [1, 0]], [[1, 1]]]
       = (case forward (demo_co\<lparr>SelectorPerceptron := trainer_result demo_inplace_trainer\<rparr>)
                 demo_learner demo_data [[[0, 1], [1, 0]], [[1, 1]]] of
            Inl e \<Rightarrow> Inl e | Inr pair \<Rightarrow> Inr (pair, demo_learner))"
    using t3 dev by blast
  have s: "training_seeds demo_co demo_inplace_trainer (Cuda 0) demo_data demo_data 0
        [[[0, 1], [1, 0]], [[1, 1]]] (([[0, 0], [0, 0]], [[0, 0], [0, 0]]), demo_learner)
       = [[1, 0], [1, 0]]"
    by code_simp
  have v: "forward_inplace demo_co demo_inplace_trainer (Cuda 0) demo_learner demo_data
        [[[0, 1], [1, 0]], [[1, 1]]]
       = Inr (([0, 1], [1, 0]), demo_learner)"
    by code_simp
  show ?thesis using h dev t1 t2 s f v by blast
qed

text \<open>
  The initial weight is not copied into a training run on the CPU: with a trainer that
  adds 1 to every entry of the tensor it is passed, the second cluster is trained from
  the seed \<open>[2, 1]\<close> and the call leaves \<open>[3, 2]\<close> in the learner.
\<close>

theorem init_weight_not_copied_counterexample:
  "init demo_float ''demo'' 2 2 3 1 32 = Inr demo_learner
   \<and> init_weight demo_learner = [1, 0]
   \<and> training_seeds demo_co demo_inplace_trainer Cpu demo_data demo_data 0
        [[[0, 1], [1, 0]], [[1, 1]]] (([[0, 0], [0, 0]], [[0, 0], [0, 0]]), demo_learner)
       = [[1, 0], [2, 1]]
   \<and> forward_inplace demo_co demo_inplace_trainer Cpu demo_learner demo_data
        [[[0, 1], [1, 0]], [[1, 1]]]
       = Inr (([0, 1], [1, 0]), demo_learner\<lparr>init_weight := [3, 2]\<rparr>)
   \<and> [2, 1] \<noteq> [1, 0 :: int] \<and> [3, 2] \<noteq> [1, 0 :: int]"
proof -
  have h: "init demo_float ''demo'' 2 2 3 1 32 = Inr demo_learner"
    by (simp add: init_def zeros_def demo_learner_def demo_float_def numeral_2_eq_2
        real_sqrt_divide)
  have w: "init_weight demo_learner = [1, 0]" by (simp add: demo_learner_def)
  have s: "training_seeds demo_co demo_inplace_trainer Cpu demo_data demo_data 0
        [[[0, 1], [1, 0]], [[1, 1]]] (([[0, 0], [0, 0]], [[0, 0], [0, 0]]), demo_learner)
       = [[1, 0], [2, 1]]"
    by code_simp
  have v: "forward_inplace demo_co demo_inplace_trainer Cpu demo_learner demo_data
        [[[0, 1], [1, 0]], [[1, 1]]]
       = Inr (([0, 1], [1, 0]), demo_learner\<lparr>init_weight := [3, 2]\<rparr>)"
    by code_simp
  show ?thesis using h w s v by simp
qed

subsection \<open>The result of \<^verbatim>\<open>forward\<close>\<close>

text \<open>
  Claim C4. For a learner built by the constructor, collaborators that keep their shape
  contracts, a nonempty list of nonempty clusters of dimension \<open>dim_sample\<close> and a
  training-sample count between 0 and the length of every cluster's view,
  \<^verbatim>\<open>forward\<close> processes the clusters in input order and the loop completes. Row
  \<open>i\<close> of the candidate matrices holds the best pair of cluster \<open>i\<close>: the view of
  the cluster is split, the trainer is called with the cluster's number \<open>i + 1\<close>, its
  size, the two splits and the initial weight, and among the cluster's classifiers and
  the selectors so trained the row is the first one of minimal conditional error rate
  on the shared evaluation view. \<^verbatim>\<open>forward\<close> then returns the result of one call of
  \<^verbatim>\<open>evaluate\<close> on the whole candidate matrices, which is their first row \<open>m\<close> of
  minimal conditional error rate: a classifier and a selector, each of dimension
  \<open>dim_sample\<close>.
\<close>

theorem forward_final_evaluate:
  assumes "init fl prev_header d n k lr_coeff bs = Inr L"
    and "classify_ok co" and "trainer_ok co (nat d)" and "clusters_ok co (nat d) clusters"
    and "clusters \<noteq> []"
    and "\<forall>i < length clusters.
           0 \<le> k \<and> k \<le> int (length (TransformedDataset co data (Some (clusters ! i))))"
    and "ev = TransformedDataset co data None"
    and "table = replicate (length clusters) (replicate (nat d) 0)"
  shows "\<exists>cands rate m. cluster_loop co L data ev 0 clusters (table, table) = Inr cands
           \<and> length (fst cands) = length clusters \<and> length (snd cands) = length clusters
           \<and> (\<forall>i < length clusters. \<exists>train val sels r j.
                 split_dataset co L i (TransformedDataset co data (Some (clusters ! i)))
                   = Inr (train, val)
                 \<and> SelectorPerceptron co (header L @ ''>'') d (i + 1)
                      (length (to_dense co (clusters ! i))) n (lr_beta L) bs
                      train val (init_weight L) = Inr sels
                 \<and> error_rates co ev (to_dense co (clusters ! i)) sels = Inr r
                 \<and> j < length (to_dense co (clusters ! i))
                 \<and> (\<forall>l < length r. \<not> fless (r ! l) (r ! j))
                 \<and> (\<forall>l < j. fless (r ! j) (r ! l))
                 \<and> fst cands ! i = to_dense co (clusters ! i) ! j
                 \<and> snd cands ! i = sels ! j)
           \<and> error_rates co ev (fst cands) (snd cands) = Inr rate
           \<and> m < length clusters
           \<and> (\<forall>l < length rate. \<not> fless (rate ! l) (rate ! m))
           \<and> (\<forall>l < m. fless (rate ! m) (rate ! l))
           \<and> forward co L data clusters = evaluate co ev (fst cands) (snd cands)
           \<and> forward co L data clusters = Inr (fst cands ! m, snd cands ! m)
           \<and> length (fst cands ! m) = nat d \<and> length (snd cands ! m) = nat d"
proof -
  let ?D = "nat d"
  note I = init_Inr[OF assms(1)]
  have d: "0 < d" and dim: "dim_sample L = d" and lw: "length (init_weight L) = ?D"
    using I by simp_all
  have dimD: "dim_sample L = int ?D" using d dim by simp
  have spl: "list_all (\<lambda>c. length (TransformedDataset co data (Some c)) = 1
           \<longrightarrow> 0 \<le> sample_size_psgd L \<and> sample_size_psgd L \<le> 1) clusters"
    using assms(6) I(5) by (auto simp: list_all_length)
  have t1: "0 + length clusters \<le> length (fst (table, table))" by (simp add: assms(8))
  have t2: "length (snd (table, table)) = length (fst (table, table))" by simp
  have t3: "\<forall>j < length (fst (table, table)).
      length (fst (table, table) ! j) = ?D \<and> length (snd (table, table) ! j) = ?D"
    by (simp add: assms(8))
  obtain cands where loop: "cluster_loop co L data ev 0 clusters (table, table) = Inr cands"
    using cluster_loop_total[OF assms(2,3) dimD lw assms(4) spl t1 t2 t3] by blast
  note R = cluster_loop_rows[OF loop]
  have len: "length (fst cands) = length clusters" "length (snd cands) = length clusters"
    using R by (simp_all add: assms(8))
  have best: "\<exists>train val sels r j.
                 split_dataset co L i (TransformedDataset co data (Some (clusters ! i)))
                   = Inr (train, val)
                 \<and> SelectorPerceptron co (header L @ ''>'') d (i + 1)
                      (length (to_dense co (clusters ! i))) n (lr_beta L) bs
                      train val (init_weight L) = Inr sels
                 \<and> error_rates co ev (to_dense co (clusters ! i)) sels = Inr r
                 \<and> j < length (to_dense co (clusters ! i))
                 \<and> (\<forall>l < length r. \<not> fless (r ! l) (r ! j))
                 \<and> (\<forall>l < j. fless (r ! j) (r ! l))
                 \<and> fst cands ! i = to_dense co (clusters ! i) ! j
                 \<and> snd cands ! i = sels ! j
                 \<and> length (fst cands ! i) = ?D \<and> length (snd cands ! i) = ?D"
    if i: "i < length clusters" for i
  proof -
    have ci: "to_dense co (clusters ! i) \<noteq> []"
      "list_all (\<lambda>row. length row = ?D) (to_dense co (clusters ! i))"
      using assms(4) i by (simp_all add: clusters_ok_def list_all_length)
    have si: "length (TransformedDataset co data (Some (clusters ! i))) = 1
           \<longrightarrow> 0 \<le> sample_size_psgd L \<and> sample_size_psgd L \<le> 1"
      using spl i by (simp add: list_all_length)
    obtain train val sels r j
      where sp: "split_dataset co L i (TransformedDataset co data (Some (clusters ! i)))
                   = Inr (train, val)"
      and tr: "SelectorPerceptron co (header L @ ''>'') (dim_sample L) (i + 1)
                (length (to_dense co (clusters ! i))) (num_iter L) (lr_beta L) (batch_size L)
                train val (init_weight L) = Inr sels"
      and r: "error_rates co ev (to_dense co (clusters ! i)) sels = Inr r"
      and j: "j < length (to_dense co (clusters ! i))"
      and least: "\<forall>l < length r. \<not> fless (r ! l) (r ! j)"
      and first: "\<forall>l < j. fless (r ! j) (r ! l)"
      and b: "cluster_best co L data ev i (clusters ! i)
                = Inr (to_dense co (clusters ! i) ! j, sels ! j)"
      and lc: "length (to_dense co (clusters ! i) ! j) = ?D" and ls: "length (sels ! j) = ?D"
      using cluster_best_first_minimum[OF assms(2,3) dimD lw ci si, where ev = ev and i = i]
      by blast
    from R i obtain bc' bs'
      where b': "cluster_best co L data ev (0 + i) (clusters ! i) = Inr (bc', bs')"
      and rc: "fst cands ! (0 + i) = expand_as bc' (length (fst (table, table) ! (0 + i)))"
      and rs: "snd cands ! (0 + i) = expand_as bs' (length (snd (table, table) ! (0 + i)))"
      by blast
    have same: "bc' = to_dense co (clusters ! i) ! j" "bs' = sels ! j" using b b' by simp_all
    have rows: "fst cands ! i = to_dense co (clusters ! i) ! j" "snd cands ! i = sels ! j"
      using rc rs same lc ls i by (simp_all add: assms(8) expand_as_same)
    have tr': "SelectorPerceptron co (header L @ ''>'') d (i + 1)
                (length (to_dense co (clusters ! i))) n (lr_beta L) bs
                train val (init_weight L) = Inr sels"
      using tr by (simp add: I(2,6,7))
    show ?thesis using sp tr' r j least first rows lc ls by auto
  qed
  have fw: "forward co L data clusters = evaluate co ev (fst cands) (snd cands)"
    using forward_unfold[of L co data clusters] loop d dim by (simp add: assms(7,8))
  have ne: "fst cands \<noteq> []" using len assms(5) by auto
  have l2: "length (snd cands) = length (fst cands)" using len by simp
  obtain rate m where rate: "error_rates co ev (fst cands) (snd cands) = Inr rate"
    and m: "m < length (fst cands)"
    and e: "evaluate co ev (fst cands) (snd cands) = Inr (fst cands ! m, snd cands ! m)"
    and least: "\<forall>l < length rate. \<not> fless (rate ! l) (rate ! m)"
    and first: "\<forall>l < m. fless (rate ! m) (rate ! l)"
    using evaluate_first_minimum[OF assms(2) l2 ne] by blast
  have mn: "m < length clusters" using m len by simp
  have lm: "length (fst cands ! m) = ?D \<and> length (snd cands ! m) = ?D"
    using best[OF mn] by auto
  have rows: "\<forall>i < length clusters. \<exists>train val sels r j.
                 split_dataset co L i (TransformedDataset co data (Some (clusters ! i)))
                   = Inr (train, val)
                 \<and> SelectorPerceptron co (header L @ ''>'') d (i + 1)
                      (length (to_dense co (clusters ! i))) n (lr_beta L) bs
                      train val (init_weight L) = Inr sels
                 \<and> error_rates co ev (to_dense co (clusters ! i)) sels = Inr r
                 \<and> j < length (to_dense co (clusters ! i))
                 \<and> (\<forall>l < length r. \<not> fless (r ! l) (r ! j))
                 \<and> (\<forall>l < j. fless (r ! j) (r ! l))
                 \<and> fst cands ! i = to_dense co (clusters ! i) ! j
                 \<and> snd cands ! i = sels ! j"
    using best by blast
  show ?thesis
    using loop len rows rate mn least first fw e lm by (intro exI[of _ cands] exI[of _ rate] exI[of _ m]) simp
qed

theorem forward_final_evaluate_witness:
  "init demo_float ''demo'' 2 2 3 1 32 = Inr demo_learner
   \<and> classify_ok demo_co \<and> trainer_ok demo_co (nat 2)
   \<and> clusters_ok demo_co (nat 2) [[[0, 1], [1, 0]], [[1, 1]]]
   \<and> [[[0, 1], [1, 0]], [[1, 1 :: int]]] \<noteq> []
   \<and> (0::int) \<le> 3 \<and> 3 \<le> int (length demo_data)
   \<and> (\<exists>cands m.
        cluster_loop demo_co demo_learner demo_data (TransformedDataset demo_co demo_data None) 0
            [[[0, 1], [1, 0]], [[1, 1]]]
            (replicate (length [[[0, 1], [1, 0]], [[1, 1 :: int]]]) (replicate (nat 2) 0),
             replicate (length [[[0, 1], [1, 0]], [[1, 1 :: int]]]) (replicate (nat 2) 0))
          = Inr cands
        \<and> m < length [[[0, 1], [1, 0]], [[1, 1 :: int]]]
        \<and> forward demo_co demo_learner demo_data [[[0, 1], [1, 0]], [[1, 1]]]
            = evaluate demo_co (TransformedDataset demo_co demo_data None) (fst cands) (snd cands)
        \<and> forward demo_co demo_learner demo_data [[[0, 1], [1, 0]], [[1, 1]]]
            = Inr (fst cands ! m, snd cands ! m)
        \<and> length (fst cands ! m) = nat 2 \<and> length (snd cands ! m) = nat 2)
   \<and> forward demo_co demo_learner demo_data [[[0, 1], [1, 0]], [[1, 1]]] = Inr ([0, 1], [1, 0])"
proof -
  have h1: "init demo_float ''demo'' 2 2 3 1 32 = Inr demo_learner"
    by (simp add: init_def zeros_def demo_learner_def demo_float_def numeral_2_eq_2
        real_sqrt_divide)
  have h2: "classify_ok demo_co"
    by (simp add: classify_ok_def demo_co_def demo_classify_def list_all_iff)
  have h3: "trainer_ok demo_co (nat 2)"
    by (simp add: trainer_ok_def demo_co_def demo_trainer_def list_all_iff)
  have h4: "clusters_ok demo_co (nat 2) [[[0, 1], [1, 0]], [[1, 1]]]"
    by (simp add: clusters_ok_def demo_co_def)
  have h5: "[[[0, 1], [1, 0]], [[1, 1 :: int]]] \<noteq> []" by simp
  have h6: "\<forall>i < length [[[0, 1], [1, 0]], [[1, 1 :: int]]].
      0 \<le> (3::int) \<and> 3 \<le> int (length (TransformedDataset demo_co demo_data
                                        (Some ([[[0, 1], [1, 0]], [[1, 1]]] ! i))))"
    by (simp add: demo_co_def demo_data_def)
  have h7: "(0::int) \<le> 3 \<and> 3 \<le> int (length demo_data)" by (simp add: demo_data_def)
  have v: "forward demo_co demo_learner demo_data [[[0, 1], [1, 0]], [[1, 1]]]
      = Inr ([0, 1], [1, 0])"
    by code_simp
  show ?thesis
    using h1 h2 h3 h4 h5 h7 v forward_final_evaluate[OF h1 h2 h3 h4 h5 h6 refl refl]
    by blast
qed

text \<open>
  Claim C5. The pair that \<^verbatim>\<open>forward\<close> returns comes from one input cluster: with
  classifiers and trained selectors of dimension \<open>dim_sample\<close>, the classifier is a row
  \<open>j\<close> of the dense matrix of some cluster \<open>i\<close>, and the selector is the row \<open>j\<close>
  of the selectors trained for this same cluster \<open>i\<close>.
\<close>

theorem forward_pair_from_one_cluster:
  assumes "forward co L data clusters = Inr (c, s)"
    and "dim_sample L = int D"
    and "list_all (\<lambda>cl. list_all (\<lambda>row. length row = D) (to_dense co cl)) clusters"
    and "\<forall>i < length clusters. \<forall>sels. train_selectors co L data i (clusters ! i) = Inr sels
            \<longrightarrow> list_all (\<lambda>row. length row = D) sels"
  shows "clusters \<noteq> [] \<and> (\<exists>i j sels. i < length clusters
           \<and> train_selectors co L data i (clusters ! i) = Inr sels
           \<and> j < length (to_dense co (clusters ! i)) \<and> j < length sels
           \<and> c = to_dense co (clusters ! i) ! j \<and> s = sels ! j)"
proof -
  let ?ev = "TransformedDataset co data None"
  let ?t = "replicate (length clusters) (replicate D (0::'a))"
  have d0: "0 \<le> dim_sample L" using assms(2) by simp
  obtain cands where loop: "cluster_loop co L data ?ev 0 clusters (?t, ?t) = Inr cands"
    and e: "evaluate co ?ev (fst cands) (snd cands) = Inr (c, s)"
    using assms(1) forward_unfold[OF d0, of co data clusters]
    by (auto simp: assms(2) split: sum.splits)
  note R = cluster_loop_rows[OF loop]
  have len: "length (fst cands) = length clusters" using R by simp
  obtain k where k: "k < length (fst cands)" and c: "c = fst cands ! k" and s: "s = snd cands ! k"
    using evaluate_Inr[OF e] by blast
  have kn: "k < length clusters" using k len by simp
  from R kn obtain bc bs where b: "cluster_best co L data ?ev (0 + k) (clusters ! k) = Inr (bc, bs)"
    and rc: "fst cands ! (0 + k) = expand_as bc (length (fst (?t, ?t) ! (0 + k)))"
    and rs: "snd cands ! (0 + k) = expand_as bs (length (snd (?t, ?t) ! (0 + k)))"
    by blast
  obtain sels j where t: "train_selectors co L data k (clusters ! k) = Inr sels"
    and j: "j < length (to_dense co (clusters ! k))" "j < length sels"
    and bc: "bc = to_dense co (clusters ! k) ! j" and bs: "bs = sels ! j"
    using cluster_best_Inr[of co L data ?ev k "clusters ! k" bc bs] b by auto
  have lc: "length bc = D" using assms(3) kn j bc by (simp add: list_all_length)
  have ls: "length bs = D" using assms(4) kn t j bs by (auto simp: list_all_length)
  have "c = bc" using c rc lc kn by (simp add: expand_as_same)
  moreover have "s = bs" using s rs ls kn by (simp add: expand_as_same)
  moreover have "clusters \<noteq> []" using kn by auto
  ultimately show ?thesis using kn t j bc bs by blast
qed

theorem forward_pair_from_one_cluster_witness:
  "forward demo_co demo_learner demo_data [[[0, 1], [1, 0]], [[1, 1]]] = Inr ([0, 1], [1, 0])
   \<and> dim_sample demo_learner = int 2
   \<and> (\<exists>i j sels. i < length [[[0, 1], [1, 0]], [[1, 1 :: int]]]
        \<and> train_selectors demo_co demo_learner demo_data i ([[[0, 1], [1, 0]], [[1, 1]]] ! i)
            = Inr sels
        \<and> j < length (to_dense demo_co ([[[0, 1], [1, 0]], [[1, 1]]] ! i)) \<and> j < length sels
        \<and> [0, 1] = to_dense demo_co ([[[0, 1], [1, 0]], [[1, 1]]] ! i) ! j
        \<and> [1, 0] = sels ! j)"
proof -
  have h1: "forward demo_co demo_learner demo_data [[[0, 1], [1, 0]], [[1, 1]]]
      = Inr ([0, 1], [1, 0])"
    by code_simp
  have h2: "dim_sample demo_learner = int 2" by (simp add: demo_learner_def)
  have h3: "list_all (\<lambda>cl. list_all (\<lambda>row. length row = 2) (to_dense demo_co cl))
      [[[0, 1], [1, 0]], [[1, 1 :: int]]]"
    by (simp add: demo_co_def)
  have h4: "\<forall>i < length [[[0, 1], [1, 0]], [[1, 1 :: int]]]. \<forall>sels.
      train_selectors demo_co demo_learner demo_data i ([[[0, 1], [1, 0]], [[1, 1]]] ! i) = Inr sels
        \<longrightarrow> list_all (\<lambda>row. length row = 2) sels"
    by (auto simp: train_selectors_def Let_def demo_co_def demo_trainer_def demo_learner_def
        list_all_iff split: sum.splits prod.splits)
  show ?thesis
    using h1 h2 forward_pair_from_one_cluster[OF h1 h2 h3 h4] by blast
qed

text \<open>
  Claim C9, as the code has it. \<^verbatim>\<open>forward\<close> does not check its list of clusters.
  On an empty list it raises in every case and returns no pair: for a negative
  \<open>dim_sample\<close> the allocation of the candidate matrices raises a \<open>RuntimeError\<close>
  and nothing is printed; otherwise the candidate matrices have no row, the final
  evaluation is announced and \<^verbatim>\<open>forward\<close> is the final call of \<^verbatim>\<open>evaluate\<close> on
  them, which raises: with the shape contract of \<open>Classify\<close>, the \<open>IndexError\<close> of
  the minimum over an empty vector of rates.
\<close>

theorem forward_empty_cluster_list_fails_in_evaluate:
  "(\<exists>e. forward co L data [] = Inl e)
   \<and> (dim_sample L < 0 \<longrightarrow>
        forward co L data [] = Inl RuntimeError \<and> forward_stdout co L data [] = [])
   \<and> (0 \<le> dim_sample L \<longrightarrow>
        forward co L data [] = evaluate co (TransformedDataset co data None) [] []
        \<and> forward_stdout co L data [] = [header L @ '' evaluating for the final candidates...''])
   \<and> (classify_ok co \<and> 0 \<le> dim_sample L \<longrightarrow> forward co L data [] = Inl IndexError)"
proof (intro conjI impI)
  have ev: "\<exists>e. evaluate co ev [] [] = Inl e" for ev
    by (auto simp: evaluate_def get_row_def split: sum.splits prod.splits)
  show "\<exists>e. forward co L data [] = Inl e"
  proof (cases "dim_sample L < 0")
    case True
    then show ?thesis by (simp add: forward_def zeros2_def)
  next
    case False
    then show ?thesis using ev by (simp add: forward_def zeros2_def)
  qed
next
  assume "dim_sample L < 0"
  then show "forward co L data [] = Inl RuntimeError" by (simp add: forward_def zeros2_def)
next
  assume "dim_sample L < 0"
  then show "forward_stdout co L data [] = []" by (simp add: forward_stdout_def zeros2_def)
next
  assume "0 \<le> dim_sample L"
  then show "forward co L data [] = evaluate co (TransformedDataset co data None) [] []"
    by (simp add: forward_def zeros2_def)
next
  assume "0 \<le> dim_sample L"
  then show "forward_stdout co L data []
      = [header L @ '' evaluating for the final candidates...'']"
    by (simp add: forward_stdout_def zeros2_def)
next
  assume a: "classify_ok co \<and> 0 \<le> dim_sample L"
  have "length (Classify co [] X) = length ([] :: 'a list list)" for X
    using a unfolding classify_ok_def by blast
  then have c: "Classify co [] X = []" for X by simp
  have "evaluate co ev [] [] = Inl IndexError" for ev
    by (simp add: evaluate_def error_rates_def c not_equal_def conditional_error_rate_def
        mul_def divide_def sum_rows_def nan_to_one_def torch_min_def)
  then show "forward co L data [] = Inl IndexError"
    using a by (simp add: forward_def zeros2_def)
qed

theorem forward_empty_cluster_list_fails_in_evaluate_witness:
  "classify_ok demo_co \<and> 0 \<le> dim_sample demo_learner
   \<and> forward demo_co demo_learner demo_data []
       = evaluate demo_co (TransformedDataset demo_co demo_data None) [] []
   \<and> forward_stdout demo_co demo_learner demo_data []
       = [header demo_learner @ '' evaluating for the final candidates...'']
   \<and> forward demo_co demo_learner demo_data [] = Inl IndexError"
proof -
  have h1: "classify_ok demo_co"
    by (simp add: classify_ok_def demo_co_def demo_classify_def list_all_iff)
  have h2: "0 \<le> dim_sample demo_learner" by (simp add: demo_learner_def)
  show ?thesis
    using h1 h2 forward_empty_cluster_list_fails_in_evaluate[of demo_co demo_learner demo_data]
    by blast
qed

text \<open>
  On an empty list of clusters \<^verbatim>\<open>forward\<close> does not fail at once with an error of
  its own: it announces the final evaluation, computes an empty vector of rates on the
  evaluation view and fails in the minimum over this vector.
\<close>

theorem forward_empty_cluster_list_counterexample:
  "forward_stdout demo_co demo_learner demo_data []
     = [''demo conditional learner - evaluating for the final candidates...'']
   \<and> forward_stdout demo_co demo_learner demo_data [] \<noteq> []
   \<and> forward demo_co demo_learner demo_data []
       = evaluate demo_co (TransformedDataset demo_co demo_data None) [] []
   \<and> error_rates demo_co (TransformedDataset demo_co demo_data None) [] [] = Inr []
   \<and> torch_min [] = Inl IndexError
   \<and> forward demo_co demo_learner demo_data [] = Inl IndexError"
proof -
  have 1: "forward_stdout demo_co demo_learner demo_data []
     = [''demo conditional learner - evaluating for the final candidates...'']"
    by (simp add: forward_stdout_def zeros2_def demo_learner_def)
  have 2: "forward demo_co demo_learner demo_data []
       = evaluate demo_co (TransformedDataset demo_co demo_data None) [] []"
    by (simp add: forward_def zeros2_def demo_learner_def)
  have 3: "error_rates demo_co (TransformedDataset demo_co demo_data None) [] [] = Inr []"
    by (simp add: error_rates_def demo_co_def demo_classify_def not_equal_def
        conditional_error_rate_def mul_def divide_def sum_rows_def nan_to_one_def)
  have 4: "torch_min [] = Inl IndexError" by (simp add: torch_min_def)
  have 5: "evaluate demo_co (TransformedDataset demo_co demo_data None) [] [] = Inl IndexError"
    by (simp add: evaluate_def 3 4)
  show ?thesis using 1 2 3 4 5 by simp
qed

end
